theory Spec2Isabelle
  imports Complex_Main
begin

section \<open>Configuration (pipeline/config.py)\<close>

text \<open>The page limit. The other settings (page size, field list, timeout) do not enter the model.\<close>

definition MAX_PAGES :: nat where
  "MAX_PAGES = 10"

section \<open>Fetcher (pipeline/fetcher.py)\<close>

subsection \<open>Exceptions\<close>

text \<open>
  The exceptions that reach the fetcher. In httpx, \<open>HTTPError\<close> is the common base class
  of \<open>HTTPStatusError\<close> (raised by \<open>raise_for_status\<close> on a 4xx or 5xx response) and of
  \<open>RequestError\<close>, whose subclasses include \<open>TimeoutException\<close> and the other transport
  failures. Anything else (a body that is not JSON, for instance) is \<open>OtherException\<close>.
  \<open>ValueError\<close> is what \<open>fetch_all_data\<close> and \<open>raw_to_dataframe\<close> raise themselves;
  \<open>KeyError\<close> and \<open>TypeError\<close> are what pandas raises in the transformer.
\<close>

datatype exn =
    HTTPStatusError nat
  | TimeoutException
  | TransportError
  | OtherException
  | ValueError
  | KeyError
  | TypeError

text \<open>\<open>isinstance(e, (httpx.HTTPError, httpx.TimeoutException))\<close>, the retry predicate.\<close>

fun retry_if_exception_type :: "exn \<Rightarrow> bool" where
  "retry_if_exception_type (HTTPStatusError code) = True"
| "retry_if_exception_type TimeoutException = True"
| "retry_if_exception_type TransportError = True"
| "retry_if_exception_type OtherException = False"
| "retry_if_exception_type ValueError = False"
| "retry_if_exception_type KeyError = False"
| "retry_if_exception_type TypeError = False"

subsection \<open>The retry policy of \<open>fetch_page\<close>\<close>

text \<open>\<open>stop_after_attempt(3)\<close>: stop once the attempt number has reached 3.\<close>

definition stop_after_attempt :: "nat \<Rightarrow> bool" where
  "stop_after_attempt attempt_number = (3 \<le> attempt_number)"

text \<open>
  \<open>wait_exponential(multiplier=1, min=2, max=10)\<close>: the wait after attempt \<open>n\<close> is
  \<open>max(max(0, min), min(multiplier * 2 ** (n - 1), max))\<close> seconds.
\<close>

definition wait_exponential :: "nat \<Rightarrow> nat" where
  "wait_exponential attempt_number = max (max 0 2) (min (1 * 2 ^ (attempt_number - 1)) 10)"

text \<open>
  The outcome of one call of the decorated function: what it returned or raised, how many
  times the body ran, and the waits (in seconds) slept between the attempts.
\<close>

record 'd call_result =
  outcome :: "exn + 'd"
  attempts :: nat
  sleeps :: "nat list"

text \<open>
  The body of \<open>fetch_page\<close> issues one GET, calls \<open>raise_for_status\<close> and decodes the
  JSON body; its three \<open>except\<close> clauses log and re-raise, so the body's outcome is the
  outcome of that one request. The argument \<open>attempt\<close> gives the outcome of the body at
  its n-th run (n counted from 1). The decorator runs it again after a wait while the
  exception is of a retried type and the stop condition is not met; with
  \<open>reraise=True\<close> the last exception is raised as it is.
\<close>

function retrying :: "(nat \<Rightarrow> exn + 'd) \<Rightarrow> nat \<Rightarrow> nat list \<Rightarrow> 'd call_result" where
  "retrying attempt n slept =
     (case attempt n of
        Inr data \<Rightarrow> \<lparr>outcome = Inr data, attempts = n, sleeps = slept\<rparr>
      | Inl e \<Rightarrow>
          if \<not> retry_if_exception_type e then \<lparr>outcome = Inl e, attempts = n, sleeps = slept\<rparr>
          else if stop_after_attempt n then \<lparr>outcome = Inl e, attempts = n, sleeps = slept\<rparr>
          else retrying attempt (Suc n) (slept @ [wait_exponential n]))"
  by pat_completeness auto
termination
  by (relation "measure (\<lambda>(attempt, n, slept). 3 - n)") (auto simp: stop_after_attempt_def)

definition fetch_page :: "(nat \<Rightarrow> exn + 'd) \<Rightarrow> 'd call_result" where
  "fetch_page attempt = retrying attempt 1 []"

subsection \<open>Pagination: \<open>fetch_all_data\<close>\<close>

text \<open>
  The JSON body of a page is reduced to its \<open>products\<close> entry: \<open>None\<close> when the key is
  absent, so that \<open>data.get("products", [])\<close> is \<open>products_of\<close>.
\<close>

type_synonym 'r page_data = "'r list option"

definition products_of :: "'r page_data \<Rightarrow> 'r list" where
  "products_of data = (case data of None \<Rightarrow> [] | Some ps \<Rightarrow> ps)"

text \<open>
  The state of the loop: the accumulator \<open>all_products\<close>, the page numbers for which
  \<open>fetch_page\<close> has been called (in order), and the number of rate-limit sleeps.
\<close>

record 'r fetch_state =
  all_products :: "'r list"
  requested :: "nat list"
  rate_sleeps :: nat

text \<open>
  The body of the \<open>for page in range(1, MAX_PAGES + 1)\<close> loop, over the pages that are
  left. \<open>fp page\<close> is what the call \<open>fetch_page("/search", params)\<close> for that page returns
  or raises. An empty product list and a 404 leave the loop (\<open>break\<close>); any other
  exception goes on with the next page (\<open>continue\<close>).
\<close>

fun fetch_loop :: "(nat \<Rightarrow> exn + 'r page_data) \<Rightarrow> nat list \<Rightarrow> 'r fetch_state \<Rightarrow> 'r fetch_state" where
  "fetch_loop fp [] s = s"
| "fetch_loop fp (page # pages) s =
     (let s1 = s\<lparr>requested := requested s @ [page]\<rparr> in
      case fp page of
        Inr data \<Rightarrow>
          (let products = products_of data in
           if products = [] then s1
           else fetch_loop fp pages
                  (s1\<lparr>all_products := all_products s1 @ products,
                      rate_sleeps := (if page < MAX_PAGES then rate_sleeps s1 + 1 else rate_sleeps s1)\<rparr>))
      | Inl (HTTPStatusError code) \<Rightarrow>
          if code = 404 then s1 else fetch_loop fp pages s1
      | Inl e \<Rightarrow> fetch_loop fp pages s1)"

text \<open>
  The server is a function \<open>http\<close>: page number, then attempt number, to the outcome of
  that request; \<open>fetch_page_outcome http page\<close> is what the decorated \<open>fetch_page\<close>
  returns or raises for that page. \<open>fetch_all_run\<close> is the state at the end of the loop, \<open>fetch_all_data\<close>
  the value returned or the exception raised.
\<close>

definition fetch_page_outcome :: "(nat \<Rightarrow> nat \<Rightarrow> exn + 'r page_data) \<Rightarrow> nat \<Rightarrow> exn + 'r page_data" where
  "fetch_page_outcome http page = outcome (fetch_page (http page))"

definition fetch_all_run :: "(nat \<Rightarrow> nat \<Rightarrow> exn + 'r page_data) \<Rightarrow> 'r fetch_state" where
  "fetch_all_run http =
     fetch_loop (fetch_page_outcome http) [1 ..< MAX_PAGES + 1]
       \<lparr>all_products = [], requested = [], rate_sleeps = 0\<rparr>"

definition fetch_all_data :: "(nat \<Rightarrow> nat \<Rightarrow> exn + 'r page_data) \<Rightarrow> exn + 'r list" where
  "fetch_all_data http =
     (let s = fetch_all_run http in
      if all_products s = [] then Inl ValueError else Inr (all_products s))"

subsection \<open>What a page contributes, and which pages end the pagination\<close>

text \<open>
  Read off the loop body: a page contributes the products of a successful response and
  nothing otherwise; the loop is left at a successful response without products and at
  a 404.
\<close>

definition page_yield :: "(nat \<Rightarrow> exn + 'r page_data) \<Rightarrow> nat \<Rightarrow> 'r list" where
  "page_yield fp page = (case fp page of Inr data \<Rightarrow> products_of data | Inl e \<Rightarrow> [])"

definition page_stops :: "(nat \<Rightarrow> exn + 'r page_data) \<Rightarrow> nat \<Rightarrow> bool" where
  "page_stops fp page =
     (case fp page of
        Inr data \<Rightarrow> products_of data = []
      | Inl e \<Rightarrow> e = HTTPStatusError 404)"

text \<open>The records obtained over all the pages that were requested.\<close>

definition records_obtained :: "(nat \<Rightarrow> nat \<Rightarrow> exn + 'r page_data) \<Rightarrow> 'r list" where
  "records_obtained http =
     concat (map (page_yield (fetch_page_outcome http)) (requested (fetch_all_run http)))"

text \<open>What the retry loop guarantees about a finished call.\<close>

definition retry_post :: "(nat \<Rightarrow> exn + 'd) \<Rightarrow> 'd call_result \<Rightarrow> bool" where
  "retry_post attempt r \<longleftrightarrow>
     attempts r \<le> 3
   \<and> outcome r = attempt (attempts r)
   \<and> sleeps r = map wait_exponential [1 ..< attempts r]
   \<and> (\<forall>m\<in>{1..<attempts r}. \<exists>e. attempt m = Inl e \<and> retry_if_exception_type e)
   \<and> (\<forall>e. outcome r = Inl e \<and> retry_if_exception_type e \<longrightarrow> attempts r = 3)"

subsection \<open>Concrete servers\<close>

text \<open>
  The scenario of \<open>test_fetch_all_data_success\<close>: three pages of ten products
  (\<open>{"id": i}\<close> for consecutive \<open>i\<close>), then an empty page.
\<close>

definition scenario_page :: "nat \<Rightarrow> nat list" where
  "scenario_page page = (if page \<le> 3 then map (\<lambda>i. 10 * (page - 1) + i) [0 ..< 10] else [])"

definition scenario_http :: "nat \<Rightarrow> nat \<Rightarrow> exn + nat page_data" where
  "scenario_http page n = Inr (Some (scenario_page page))"

text \<open>A server whose first page is empty and whose second page holds one product.\<close>

definition gap_http :: "nat \<Rightarrow> nat \<Rightarrow> exn + nat page_data" where
  "gap_http page n = (if page = 2 then Inr (Some [7]) else Inr (Some []))"

text \<open>A request that is answered with status 500 at every attempt.\<close>

definition failing_500 :: "nat \<Rightarrow> exn + nat page_data" where
  "failing_500 n = Inl (HTTPStatusError 500)"

text \<open>A request that times out twice and succeeds at the third attempt.\<close>

definition flaky_attempt :: "nat \<Rightarrow> exn + nat page_data" where
  "flaky_attempt n = (if n < 3 then Inl TimeoutException else Inr (Some [7]))"

text \<open>A server that answers every request with status 404.\<close>

definition not_found_http :: "nat \<Rightarrow> nat \<Rightarrow> exn + nat page_data" where
  "not_found_http page n = Inl (HTTPStatusError 404)"

text \<open>A server whose every page is empty.\<close>

definition empty_http :: "nat \<Rightarrow> nat \<Rightarrow> exn + nat page_data" where
  "empty_http page n = Inr (Some [])"

text \<open>Page 1 answers 500, page 2 holds one product, page 3 answers 404.\<close>

definition mixed_http :: "nat \<Rightarrow> nat \<Rightarrow> exn + nat page_data" where
  "mixed_http page n =
     (if page = 1 then Inl (HTTPStatusError 500)
      else if page = 2 then Inr (Some [7])
      else Inl (HTTPStatusError 404))"

section \<open>Transformer (pipeline/transformer.py)\<close>

subsection \<open>Tables\<close>

text \<open>
  A cell of a DataFrame holds Python's \<open>None\<close>, the float \<open>NaN\<close> (the two nulls: \<open>isnull\<close>
  holds of both, but they are different values), a string, a number or a list of
  strings (the tag fields of the API). Numbers are real numbers: the rounding of 64-bit
  floats is left out, and so is the difference between \<open>1\<close> and \<open>1.0\<close>.
\<close>

datatype cell = PyNone | NaN | Str string | Num real | Lst "string list"

text \<open>
  The column types the cleaning rules tell apart: \<open>Object\<close> is what
  \<open>select_dtypes(include=['object', 'string'])\<close> selects, \<open>Numeric\<close> what
  \<open>select_dtypes(include=['number'])\<close> selects, and \<open>Category\<close> is an ordered categorical
  with the given categories.
\<close>

datatype dtype = Object | Numeric | Category "string list"

record column =
  name :: string
  dtype :: dtype
  cells :: "cell list"

text \<open>A DataFrame: its row labels and its columns, each with one cell per row.\<close>

record table =
  index :: "nat list"
  columns :: "column list"

definition well_formed :: "table \<Rightarrow> bool" where
  "well_formed df \<longleftrightarrow>
     distinct (map name (columns df))
   \<and> list_all (\<lambda>c. length (cells c) = length (index df)) (columns df)"

text \<open>
  What the model takes from Python and pandas without defining it: the text of a number
  (\<open>str(x)\<close>), the text of a list (\<open>str(xs)\<close>), the number a string stands for, if any
  (what \<open>pd.to_numeric\<close> reads; \<open>None\<close> where \<open>errors='coerce'\<close> gives \<open>NaN\<close>), and the
  string methods \<open>str.lower\<close> and \<open>str.strip\<close>, which work on Unicode text. Every
  statement about the transformer holds for all such functions.
\<close>

record pylib =
  str_of_num :: "real \<Rightarrow> string"
  repr_list :: "string list \<Rightarrow> string"
  to_float :: "string \<Rightarrow> real option"
  str_lower :: "string \<Rightarrow> string"
  str_strip :: "string \<Rightarrow> string"

fun is_null :: "cell \<Rightarrow> bool" where
  "is_null PyNone = True"
| "is_null NaN = True"
| "is_null c = False"

fun is_num :: "cell \<Rightarrow> bool" where
  "is_num (Num x) = True"
| "is_num c = False"

fun is_list :: "cell \<Rightarrow> bool" where
  "is_list (Lst xs) = True"
| "is_list c = False"

definition has_column :: "table \<Rightarrow> string \<Rightarrow> bool" where
  "has_column df col = (col \<in> set (map name (columns df)))"

definition get_column :: "table \<Rightarrow> string \<Rightarrow> column option" where
  "get_column df col = find (\<lambda>c. name c = col) (columns df)"

text \<open>\<open>df[col] = f(df[col])\<close>: the column named \<open>col\<close> is replaced, the others are kept.\<close>

definition assign_column :: "string \<Rightarrow> (column \<Rightarrow> column) \<Rightarrow> table \<Rightarrow> table" where
  "assign_column col f df = df\<lparr>columns := map (\<lambda>c. if name c = col then f c else c) (columns df)\<rparr>"

text \<open>\<open>df.empty\<close>: no rows or no columns.\<close>

definition df_empty :: "table \<Rightarrow> bool" where
  "df_empty df = (index df = [] \<or> columns df = [])"

subsection \<open>\<open>raw_to_dataframe\<close>\<close>

text \<open>
  A raw record is a JSON object: field names with their values, each name once.
  \<open>pd.DataFrame(raw_data)\<close> has one row per record and one column per field name, in the
  order of first appearance; a field a record lacks is \<open>NaN\<close> in its row. A column whose
  cells are numbers and nulls, with at least one number, is numeric, and its nulls are
  \<open>NaN\<close>; any other is an object column, which holds the values as they are.
\<close>

type_synonym raw_record = "(string \<times> cell) list"

fun add_keys :: "string list \<Rightarrow> string list \<Rightarrow> string list" where
  "add_keys ks [] = ks"
| "add_keys ks (k # rest) = add_keys (if k \<in> set ks then ks else ks @ [k]) rest"

definition field_names :: "raw_record list \<Rightarrow> string list" where
  "field_names raw_data = foldl (\<lambda>ks r. add_keys ks (map fst r)) [] raw_data"

definition field_value :: "raw_record \<Rightarrow> string \<Rightarrow> cell" where
  "field_value r k = (case map_of r k of None \<Rightarrow> NaN | Some v \<Rightarrow> v)"

definition infer_dtype :: "cell list \<Rightarrow> dtype" where
  "infer_dtype vs =
     (if list_all (\<lambda>v. is_num v \<or> is_null v) vs \<and> list_ex is_num vs then Numeric else Object)"

definition DataFrame :: "raw_record list \<Rightarrow> table" where
  "DataFrame raw_data =
     \<lparr>index = [0 ..< length raw_data],
      columns = map (\<lambda>k. let vs = map (\<lambda>r. field_value r k) raw_data
                         in if infer_dtype vs = Numeric
                            then \<lparr>name = k, dtype = Numeric,
                                  cells = map (\<lambda>v. if is_null v then NaN else v) vs\<rparr>
                            else \<lparr>name = k, dtype = Object, cells = vs\<rparr>)
                    (field_names raw_data)\<rparr>"

definition raw_to_dataframe :: "raw_record list \<Rightarrow> exn + table" where
  "raw_to_dataframe raw_data =
     (if raw_data = [] then Inl ValueError else Inr (DataFrame raw_data))"

subsection \<open>Strings\<close>

text \<open>
  Strings are byte strings (UTF-8). \<open>str.lower\<close> and \<open>str.strip\<close> belong to the library
  (\<open>str_lower\<close> and \<open>str_strip\<close> of \<open>pylib\<close>).
\<close>

text \<open>\<open>sep.join(xs)\<close>.\<close>

fun join :: "string \<Rightarrow> string list \<Rightarrow> string" where
  "join sep [] = []"
| "join sep [x] = x"
| "join sep (x # y # ys) = x @ sep @ join sep (y # ys)"

text \<open>The sentinel \<open>"Non renseign\'e"\<close>, with its last letter as the two bytes of UTF-8.\<close>

definition sentinel :: string where
  "sentinel = ''Non renseign'' @ [char_of (195::nat), char_of (169::nat)]"

text \<open>\<open>str(x)\<close> for the value of a cell.\<close>

fun str_cell :: "pylib \<Rightarrow> cell \<Rightarrow> string" where
  "str_cell lib PyNone = ''None''"
| "str_cell lib NaN = ''nan''"
| "str_cell lib (Str s) = s"
| "str_cell lib (Num x) = str_of_num lib x"
| "str_cell lib (Lst xs) = repr_list lib xs"

subsection \<open>Rule 1: duplicates\<close>

text \<open>
  \<open>drop_duplicates(subset=['code'], keep='first')\<close> keeps a row when the value of its
  \<open>code\<close> cell has not occurred in an earlier row. A \<open>NaN\<close> counts as equal to a \<open>NaN\<close>
  and a \<open>None\<close> to a \<open>None\<close>, but \<open>None\<close> and \<open>NaN\<close> are two values. It raises
  \<open>KeyError\<close> when there is no column \<open>code\<close>, and \<open>TypeError\<close> when a \<open>code\<close> cell holds a
  list, which cannot be hashed.
\<close>

fun first_seen :: "cell list \<Rightarrow> cell list \<Rightarrow> bool list" where
  "first_seen seen [] = []"
| "first_seen seen (v # vs) = (v \<notin> set seen) # first_seen (v # seen) vs"

definition select_rows :: "bool list \<Rightarrow> 'a list \<Rightarrow> 'a list" where
  "select_rows keep xs = map snd (filter fst (zip keep xs))"

definition drop_duplicates :: "table \<Rightarrow> exn + table" where
  "drop_duplicates df =
     (case get_column df ''code'' of
        None \<Rightarrow> Inl KeyError
      | Some code \<Rightarrow>
          if list_ex is_list (cells code) then Inl TypeError
          else let keep = first_seen [] (cells code) in
            Inr \<lparr>index = select_rows keep (index df),
                 columns = map (\<lambda>c. c\<lparr>cells := select_rows keep (cells c)\<rparr>) (columns df)\<rparr>)"

subsection \<open>Rule 2: missing values\<close>

definition fillna :: "cell \<Rightarrow> column \<Rightarrow> column" where
  "fillna v c = c\<lparr>cells := map (\<lambda>x. if is_null x then v else x) (cells c)\<rparr>"

definition select_dtypes_text :: "table \<Rightarrow> string list" where
  "select_dtypes_text df = map name (filter (\<lambda>c. dtype c = Object) (columns df))"

definition select_dtypes_number :: "table \<Rightarrow> string list" where
  "select_dtypes_number df = map name (filter (\<lambda>c. dtype c = Numeric) (columns df))"

definition missing_count :: "column \<Rightarrow> nat" where
  "missing_count c = length (filter is_null (cells c))"

definition fill_text_column :: "column \<Rightarrow> column" where
  "fill_text_column c = (if missing_count c > 0 then fillna (Str sentinel) c else c)"

definition fill_text :: "table \<Rightarrow> table" where
  "fill_text df = foldl (\<lambda>d col. assign_column col fill_text_column d) df (select_dtypes_text df)"

text \<open>The numbers of a column, nulls skipped.\<close>

fun numbers :: "cell list \<Rightarrow> real list" where
  "numbers [] = []"
| "numbers (Num x # vs) = x # numbers vs"
| "numbers (v # vs) = numbers vs"

text \<open>\<open>Series.median()\<close>: \<open>None\<close> stands for \<open>NaN\<close>, the median of no number.\<close>

definition median :: "real list \<Rightarrow> real option" where
  "median xs =
     (let s = sort xs; n = length s in
      if n = 0 then None
      else if odd n then Some (s ! (n div 2))
      else Some ((s ! (n div 2 - 1) + s ! (n div 2)) / 2))"

definition fill_numeric_column :: "column \<Rightarrow> column" where
  "fill_numeric_column c =
     (if missing_count c > 0 then
        (case median (numbers (cells c)) of
           Some median_val \<Rightarrow> fillna (Num median_val) c
         | None \<Rightarrow> fillna (Num 0) c)
      else c)"

definition fill_numeric :: "table \<Rightarrow> table" where
  "fill_numeric df = foldl (\<lambda>d col. assign_column col fill_numeric_column d) df (select_dtypes_number df)"

subsection \<open>Rule 3: text normalisation\<close>

text \<open>\<open>df[col].astype(str)\<close>: every cell becomes its text, in an object column.\<close>

definition astype_str :: "pylib \<Rightarrow> column \<Rightarrow> column" where
  "astype_str lib c = c\<lparr>dtype := Object, cells := map (\<lambda>x. Str (str_cell lib x)) (cells c)\<rparr>"

fun str_map :: "(string \<Rightarrow> string) \<Rightarrow> cell \<Rightarrow> cell" where
  "str_map f (Str s) = Str (f s)"
| "str_map f c = c"

definition normalize_column :: "pylib \<Rightarrow> column \<Rightarrow> column" where
  "normalize_column lib c =
     (let c1 = astype_str lib c;
          c2 = c1\<lparr>cells := map (str_map (str_strip lib)) (cells c1)\<rparr>
      in c2\<lparr>cells := map (str_map (str_lower lib)) (cells c2)\<rparr>)"

definition text_cols_to_normalize :: "string list" where
  "text_cols_to_normalize = [''product_name'', ''brands'', ''categories'']"

definition normalize_text :: "pylib \<Rightarrow> table \<Rightarrow> table" where
  "normalize_text lib df =
     foldl (\<lambda>d col. if has_column d col then assign_column col (normalize_column lib) d else d)
       df text_cols_to_normalize"

subsection \<open>Rule 4: types\<close>

definition code_to_str :: "pylib \<Rightarrow> table \<Rightarrow> table" where
  "code_to_str lib df =
     (if has_column df ''code'' then assign_column ''code'' (astype_str lib) df else df)"

text \<open>The categories \<open>['a', 'b', 'c', 'd', 'e', 'non renseign\'e']\<close>.\<close>

definition nutriscore_categories :: "string list" where
  "nutriscore_categories =
     [''a'', ''b'', ''c'', ''d'', ''e'', ''non renseign'' @ [char_of (195::nat), char_of (169::nat)]]"

text \<open>
  \<open>pd.Categorical(values, categories=cats, ordered=True)\<close>: a value that is not one of
  the categories becomes \<open>NaN\<close>. A list cannot be looked up (\<open>TypeError\<close>).
\<close>

fun categorise :: "string list \<Rightarrow> cell \<Rightarrow> cell" where
  "categorise cats (Str s) = (if s \<in> set cats then Str s else NaN)"
| "categorise cats c = NaN"

definition Categorical :: "string list \<Rightarrow> column \<Rightarrow> column" where
  "Categorical cats c = c\<lparr>dtype := Category cats, cells := map (categorise cats) (cells c)\<rparr>"

definition nutriscore_to_category :: "table \<Rightarrow> exn + table" where
  "nutriscore_to_category df =
     (case get_column df ''nutriscore_grade'' of
        None \<Rightarrow> Inr df
      | Some c \<Rightarrow>
          if list_ex is_list (cells c) then Inl TypeError
          else Inr (assign_column ''nutriscore_grade'' (Categorical nutriscore_categories) df))"

subsection \<open>Rule 5: numeric values\<close>

text \<open>
  \<open>pd.to_numeric(s, errors='coerce')\<close>: a numeric column is returned as it is; in any
  other column a string is read as a number where it stands for one, and what is not a
  number becomes \<open>NaN\<close>.
\<close>

fun coerce :: "pylib \<Rightarrow> cell \<Rightarrow> cell" where
  "coerce lib (Num x) = Num x"
| "coerce lib (Str s) = (case to_float lib s of Some x \<Rightarrow> Num x | None \<Rightarrow> NaN)"
| "coerce lib c = NaN"

definition to_numeric :: "pylib \<Rightarrow> column \<Rightarrow> column" where
  "to_numeric lib c =
     (if dtype c = Numeric then c
      else c\<lparr>dtype := Numeric, cells := map (coerce lib) (cells c)\<rparr>)"

fun is_negative :: "cell \<Rightarrow> bool" where
  "is_negative (Num x) = (x < 0)"
| "is_negative c = False"

fun below :: "real \<Rightarrow> cell \<Rightarrow> bool" where
  "below b (Num x) = (x < b)"
| "below b c = False"

fun above :: "real \<Rightarrow> cell \<Rightarrow> bool" where
  "above b (Num x) = (x > b)"
| "above b c = False"

text \<open>\<open>df.loc[cond, col] = v\<close>.\<close>

definition set_where :: "(cell \<Rightarrow> bool) \<Rightarrow> cell \<Rightarrow> column \<Rightarrow> column" where
  "set_where cond v c = c\<lparr>cells := map (\<lambda>x. if cond x then v else x) (cells c)\<rparr>"

definition mean :: "real list \<Rightarrow> real" where
  "mean xs = sum_list xs / real (length xs)"

text \<open>\<open>Series.std()\<close>, the sample standard deviation: \<open>NaN\<close> (\<open>None\<close>) for fewer than two numbers.\<close>

definition std :: "real list \<Rightarrow> real option" where
  "std xs =
     (if length xs < 2 then None
      else Some (sqrt (sum_list (map (\<lambda>x. (x - mean xs)\<^sup>2) xs) / real (length xs - 1))))"

definition clip_outliers :: "column \<Rightarrow> column" where
  "clip_outliers c =
     (if length (numbers (cells c)) > 0 then
        (let mean_val = mean (numbers (cells c)) in
         case std (numbers (cells c)) of
           None \<Rightarrow> c
         | Some std_val \<Rightarrow>
             if std_val > 0 then
               (let lower_bound = mean_val - 3 * std_val;
                    upper_bound = mean_val + 3 * std_val;
                    outliers = length (filter (\<lambda>x. below lower_bound x \<or> above upper_bound x) (cells c))
                in if outliers > 0
                   then set_where (above upper_bound) (Num upper_bound)
                          (set_where (below lower_bound) (Num lower_bound) c)
                   else c)
             else c)
      else c)"

definition clean_numeric_column :: "pylib \<Rightarrow> column \<Rightarrow> column" where
  "clean_numeric_column lib c =
     (let c1 = to_numeric lib c;
          negative_count = length (filter is_negative (cells c1));
          c2 = (if negative_count > 0 then set_where is_negative (Num 0) c1 else c1)
      in clip_outliers c2)"

definition numeric_cols_to_clean :: "string list" where
  "numeric_cols_to_clean =
     [''energy_100g'', ''fat_100g'', ''sugars_100g'', ''salt_100g'', ''proteins_100g'']"

definition clean_numeric :: "pylib \<Rightarrow> table \<Rightarrow> table" where
  "clean_numeric lib df =
     foldl (\<lambda>d col. if has_column d col then assign_column col (clean_numeric_column lib) d else d)
       df numeric_cols_to_clean"

subsection \<open>Rule 6: lists\<close>

fun join_or_str :: "pylib \<Rightarrow> cell \<Rightarrow> cell" where
  "join_or_str lib (Lst xs) = Str (join '', '' xs)"
| "join_or_str lib c = Str (str_cell lib c)"

definition flatten_column :: "pylib \<Rightarrow> column \<Rightarrow> column" where
  "flatten_column lib c = c\<lparr>dtype := Object, cells := map (join_or_str lib) (cells c)\<rparr>"

definition list_cols :: "string list" where
  "list_cols = [''categories'', ''packaging_tags'', ''labels_tags'', ''countries_tags'']"

definition flatten_lists :: "pylib \<Rightarrow> table \<Rightarrow> table" where
  "flatten_lists lib df =
     foldl (\<lambda>d col. if has_column d col then assign_column col (flatten_column lib) d else d)
       df list_cols"

subsection \<open>\<open>clean_dataframe\<close>\<close>

text \<open>
  The rules after the removal of duplicates, in the order of the source. Only the
  categorical conversion can raise.
\<close>

definition clean_rules :: "pylib \<Rightarrow> table \<Rightarrow> exn + table" where
  "clean_rules lib d1 =
     (let d2 = fill_text d1;
          d3 = fill_numeric d2;
          d4 = normalize_text lib d3;
          d5 = code_to_str lib d4
      in case nutriscore_to_category d5 of
           Inl e \<Rightarrow> Inl e
         | Inr d6 \<Rightarrow> Inr (flatten_lists lib (clean_numeric lib d6)))"

text \<open>The value \<open>clean_dataframe\<close> returns, or the exception it raises.\<close>

definition clean_dataframe :: "pylib \<Rightarrow> table \<Rightarrow> exn + table" where
  "clean_dataframe lib df =
     (if df_empty df then Inr df
      else case drop_duplicates df of
             Inl e \<Rightarrow> Inl e
           | Inr d1 \<Rightarrow> clean_rules lib d1)"

subsection \<open>\<open>clean_dataframe\<close> on a heap of DataFrames\<close>

text \<open>
  To speak about what \<open>clean_dataframe\<close> does to its argument, DataFrames are objects in
  a heap (a list of tables, an object's address being its position) and a variable holds
  an address. \<open>df.copy()\<close> and \<open>drop_duplicates\<close> allocate a new object; the assignments
  \<open>df_clean[col] = ...\<close> of the later rules write to the object \<open>df_clean\<close> refers to. An
  empty DataFrame is returned as it is: the same object.
\<close>

type_synonym heap = "table list"

definition clean_dataframe_heap :: "pylib \<Rightarrow> heap \<Rightarrow> nat \<Rightarrow> (exn + nat) \<times> heap" where
  "clean_dataframe_heap lib h df =
     (if df_empty (h ! df) then (Inr df, h)
      else
        let df_clean = length h;
            h0 = h @ [h ! df]
        in case drop_duplicates (h0 ! df_clean) of
             Inl e \<Rightarrow> (Inl e, h0)
           | Inr d1 \<Rightarrow>
               let df_clean = length h0;
                   h1 = h0 @ [d1];
                   h2 = h1[df_clean := fill_text (h1 ! df_clean)];
                   h3 = h2[df_clean := fill_numeric (h2 ! df_clean)];
                   h4 = h3[df_clean := normalize_text lib (h3 ! df_clean)];
                   h5 = h4[df_clean := code_to_str lib (h4 ! df_clean)]
               in case nutriscore_to_category (h5 ! df_clean) of
                    Inl e \<Rightarrow> (Inl e, h5)
                  | Inr d6 \<Rightarrow>
                      let h6 = h5[df_clean := d6];
                          h7 = h6[df_clean := clean_numeric lib (h6 ! df_clean)];
                          h8 = h7[df_clean := flatten_lists lib (h7 ! df_clean)]
                      in (Inr df_clean, h8))"

subsection \<open>The rules, column by column\<close>

text \<open>
  Every rule after the first rewrites columns one at a time, so the whole of them is one
  function on columns: the fill rule chosen by the column's type, then the rules chosen
  by its name.
\<close>

definition map_columns :: "(column \<Rightarrow> column) \<Rightarrow> table \<Rightarrow> table" where
  "map_columns g df = df\<lparr>columns := map g (columns df)\<rparr>"

definition fill_rule :: "column \<Rightarrow> column" where
  "fill_rule c =
     (if dtype c = Object then fill_text_column c
      else if dtype c = Numeric then fill_numeric_column c
      else c)"

definition normalize_rule :: "pylib \<Rightarrow> column \<Rightarrow> column" where
  "normalize_rule lib c = (if name c \<in> set text_cols_to_normalize then normalize_column lib c else c)"

definition code_rule :: "pylib \<Rightarrow> column \<Rightarrow> column" where
  "code_rule lib c = (if name c = ''code'' then astype_str lib c else c)"

definition nutriscore_rule :: "column \<Rightarrow> column" where
  "nutriscore_rule c =
     (if name c = ''nutriscore_grade'' then Categorical nutriscore_categories c else c)"

definition numeric_rule :: "pylib \<Rightarrow> column \<Rightarrow> column" where
  "numeric_rule lib c = (if name c \<in> set numeric_cols_to_clean then clean_numeric_column lib c else c)"

definition list_rule :: "pylib \<Rightarrow> column \<Rightarrow> column" where
  "list_rule lib c = (if name c \<in> set list_cols then flatten_column lib c else c)"

definition later_rules :: "pylib \<Rightarrow> column \<Rightarrow> column" where
  "later_rules lib c =
     list_rule lib (numeric_rule lib (nutriscore_rule (code_rule lib (normalize_rule lib c))))"

definition column_rules :: "pylib \<Rightarrow> column \<Rightarrow> column" where
  "column_rules lib c = later_rules lib (fill_rule c)"

text \<open>The columns no rule after the fill rule names.\<close>

definition named_by_later_rule :: "string \<Rightarrow> bool" where
  "named_by_later_rule col \<longleftrightarrow>
     col \<in> set text_cols_to_normalize \<or> col = ''code'' \<or> col = ''nutriscore_grade''
   \<or> col \<in> set numeric_cols_to_clean \<or> col \<in> set list_cols"

subsection \<open>Tables that are already clean\<close>

fun is_str :: "cell \<Rightarrow> bool" where
  "is_str (Str s) = True"
| "is_str c = False"

fun is_normalized :: "pylib \<Rightarrow> cell \<Rightarrow> bool" where
  "is_normalized lib (Str s) = (str_lower lib (str_strip lib s) = s)"
| "is_normalized lib c = False"

fun is_category :: "string list \<Rightarrow> cell \<Rightarrow> bool" where
  "is_category cats NaN = True"
| "is_category cats (Str s) = (s \<in> set cats)"
| "is_category cats c = False"

text \<open>No number of the column lies more than three standard deviations from the mean.\<close>

definition within_bounds :: "column \<Rightarrow> bool" where
  "within_bounds c =
     (case std (numbers (cells c)) of
        None \<Rightarrow> True
      | Some std_val \<Rightarrow>
          std_val > 0 \<longrightarrow>
            list_all (\<lambda>x. \<not> below (mean (numbers (cells c)) - 3 * std_val) x
                         \<and> \<not> above (mean (numbers (cells c)) + 3 * std_val) x) (cells c))"

text \<open>What each rule establishes, for one column.\<close>

definition column_clean :: "pylib \<Rightarrow> column \<Rightarrow> bool" where
  "column_clean lib c \<longleftrightarrow>
     (dtype c = Object \<or> dtype c = Numeric \<longrightarrow> \<not> list_ex is_null (cells c))
   \<and> (name c \<in> set text_cols_to_normalize \<longrightarrow> dtype c = Object \<and> list_all (is_normalized lib) (cells c))
   \<and> (name c = ''code'' \<longrightarrow> dtype c = Object \<and> list_all is_str (cells c))
   \<and> (name c = ''nutriscore_grade'' \<longrightarrow>
        dtype c = Category nutriscore_categories
        \<and> list_all (is_category nutriscore_categories) (cells c))
   \<and> (name c \<in> set numeric_cols_to_clean \<longrightarrow>
        dtype c = Numeric \<and> \<not> list_ex is_negative (cells c) \<and> within_bounds c)
   \<and> (name c \<in> set list_cols \<longrightarrow> dtype c = Object \<and> list_all is_str (cells c))"

definition already_clean :: "pylib \<Rightarrow> table \<Rightarrow> bool" where
  "already_clean lib df \<longleftrightarrow>
     well_formed df
   \<and> (df_empty df
      \<or> ((case get_column df ''code'' of None \<Rightarrow> False | Some code \<Rightarrow> distinct (cells code))
         \<and> list_all (column_clean lib) (columns df)))"

subsection \<open>Concrete tables\<close>

text \<open>
  A small instance of the library, enough of Python for the tables below, all of whose
  strings are ASCII but for the sentinel: a reader of unsigned decimal numerals, a writer
  of the whole numbers from 0 to 999 (as \<open>str\<close> writes an \<open>int\<close>), a writer of lists of
  strings without quotes or backslashes, and \<open>lower\<close> and \<open>strip\<close> for ASCII letters and
  ASCII whitespace.
\<close>

definition is_digit :: "char \<Rightarrow> bool" where
  "is_digit c = ((48::nat) \<le> of_char c \<and> of_char c \<le> (57::nat))"

definition read_digits :: "string \<Rightarrow> real option" where
  "read_digits s =
     (if s \<noteq> [] \<and> list_all is_digit s
      then Some (real (foldl (\<lambda>n c. 10 * n + (of_char c - 48)) 0 s))
      else None)"

definition digit_char :: "nat \<Rightarrow> char" where
  "digit_char d = ''0123456789'' ! d"

definition write_whole :: "real \<Rightarrow> string" where
  "write_whole x =
     (let n = nat \<lfloor>x\<rfloor> in
      if n < 10 then [digit_char n]
      else if n < 100 then [digit_char (n div 10), digit_char (n mod 10)]
      else [digit_char (n div 100 mod 10), digit_char (n div 10 mod 10), digit_char (n mod 10)])"

definition write_list :: "string list \<Rightarrow> string" where
  "write_list xs = ''['' @ join '', '' (map (\<lambda>x. [CHR 39] @ x @ [CHR 39]) xs) @ '']''"

definition lower_char :: "char \<Rightarrow> char" where
  "lower_char c =
     (if (65::nat) \<le> of_char c \<and> of_char c \<le> (90::nat) then char_of (of_char c + (32::nat)) else c)"

definition ascii_lower :: "string \<Rightarrow> string" where
  "ascii_lower s = map lower_char s"

definition is_space :: "char \<Rightarrow> bool" where
  "is_space c =
     (((9::nat) \<le> of_char c \<and> of_char c \<le> (13::nat))
      \<or> ((28::nat) \<le> of_char c \<and> of_char c \<le> (32::nat)))"

definition ascii_strip :: "string \<Rightarrow> string" where
  "ascii_strip s = rev (dropWhile is_space (rev (dropWhile is_space s)))"

definition example_lib :: pylib where
  "example_lib =
     \<lparr>str_of_num = write_whole, repr_list = write_list, to_float = read_digits,
      str_lower = ascii_lower, str_strip = ascii_strip\<rparr>"

text \<open>The table of \<open>test_clean_dataframe_fill_missing_text\<close>.\<close>

definition names_table :: table where
  "names_table =
     \<lparr>index = [0, 1],
      columns = [\<lparr>name = ''code'', dtype = Object, cells = [Str ''123'', Str ''456'']\<rparr>,
                 \<lparr>name = ''name'', dtype = Object, cells = [Str ''Test'', PyNone]\<rparr>,
                 \<lparr>name = ''value'', dtype = Numeric, cells = [Num 10, Num 20]\<rparr>]\<rparr>"

definition names_table_clean :: table where
  "names_table_clean =
     \<lparr>index = [0, 1],
      columns = [\<lparr>name = ''code'', dtype = Object, cells = [Str ''123'', Str ''456'']\<rparr>,
                 \<lparr>name = ''name'', dtype = Object, cells = [Str ''Test'', Str sentinel]\<rparr>,
                 \<lparr>name = ''value'', dtype = Numeric, cells = [Num 10, Num 20]\<rparr>]\<rparr>"

text \<open>A table with no column \<open>code\<close>.\<close>

definition no_code_table :: table where
  "no_code_table =
     \<lparr>index = [0],
      columns = [\<lparr>name = ''name'', dtype = Object, cells = [Str ''A'']\<rparr>]\<rparr>"

text \<open>
  Three rows, the second with the code of the first, and a name missing in the second
  and the third.
\<close>

definition duplicates_table :: table where
  "duplicates_table =
     \<lparr>index = [0, 1, 2],
      columns = [\<lparr>name = ''code'', dtype = Object, cells = [Str ''123'', Str ''123'', Str ''456'']\<rparr>,
                 \<lparr>name = ''name'', dtype = Object, cells = [Str ''A'', PyNone, PyNone]\<rparr>,
                 \<lparr>name = ''value'', dtype = Numeric, cells = [Num 1, Num 1, Num 2]\<rparr>]\<rparr>"

definition duplicates_table_clean :: table where
  "duplicates_table_clean =
     \<lparr>index = [0, 2],
      columns = [\<lparr>name = ''code'', dtype = Object, cells = [Str ''123'', Str ''456'']\<rparr>,
                 \<lparr>name = ''name'', dtype = Object, cells = [Str ''A'', Str sentinel]\<rparr>,
                 \<lparr>name = ''value'', dtype = Numeric, cells = [Num 1, Num 2]\<rparr>]\<rparr>"

text \<open>The table of \<open>test_clean_dataframe_convert_code_to_string\<close>: the codes are numbers.\<close>

definition numeric_codes_table :: table where
  "numeric_codes_table =
     \<lparr>index = [0, 1],
      columns = [\<lparr>name = ''code'', dtype = Numeric, cells = [Num 123, Num 456]\<rparr>,
                 \<lparr>name = ''name'', dtype = Object, cells = [Str ''A'', Str ''B'']\<rparr>]\<rparr>"

definition numeric_codes_clean :: table where
  "numeric_codes_clean =
     \<lparr>index = [0, 1],
      columns = [\<lparr>name = ''code'', dtype = Object, cells = [Str ''123'', Str ''456'']\<rparr>,
                 \<lparr>name = ''name'', dtype = Object, cells = [Str ''A'', Str ''B'']\<rparr>]\<rparr>"

text \<open>
  Two products, the first without a code and the second with the sentinel for its code;
  their \<open>energy_100g\<close> arrived as text, one of them missing.
\<close>

definition sentinel_code_table :: table where
  "sentinel_code_table =
     \<lparr>index = [0, 1],
      columns = [\<lparr>name = ''code'', dtype = Object, cells = [PyNone, Str sentinel]\<rparr>,
                 \<lparr>name = ''energy_100g'', dtype = Object, cells = [PyNone, Str ''5'']\<rparr>]\<rparr>"

definition sentinel_code_clean :: table where
  "sentinel_code_clean =
     \<lparr>index = [0, 1],
      columns = [\<lparr>name = ''code'', dtype = Object, cells = [Str sentinel, Str sentinel]\<rparr>,
                 \<lparr>name = ''energy_100g'', dtype = Numeric, cells = [NaN, Num 5]\<rparr>]\<rparr>"

text \<open>Two products whose \<open>energy_100g\<close> arrived as text, one of them not a number.\<close>

definition energy_text_table :: table where
  "energy_text_table =
     \<lparr>index = [0, 1],
      columns = [\<lparr>name = ''code'', dtype = Object, cells = [Str ''1'', Str ''2'']\<rparr>,
                 \<lparr>name = ''energy_100g'', dtype = Object, cells = [Str ''abc'', Str ''5'']\<rparr>]\<rparr>"

definition energy_text_once :: table where
  "energy_text_once =
     \<lparr>index = [0, 1],
      columns = [\<lparr>name = ''code'', dtype = Object, cells = [Str ''1'', Str ''2'']\<rparr>,
                 \<lparr>name = ''energy_100g'', dtype = Numeric, cells = [NaN, Num 5]\<rparr>]\<rparr>"

definition energy_text_twice :: table where
  "energy_text_twice =
     \<lparr>index = [0, 1],
      columns = [\<lparr>name = ''code'', dtype = Object, cells = [Str ''1'', Str ''2'']\<rparr>,
                 \<lparr>name = ''energy_100g'', dtype = Numeric, cells = [Num 5, Num 5]\<rparr>]\<rparr>"

text \<open>Two raw records, the second without the field \<open>value\<close>.\<close>

definition two_records :: "raw_record list" where
  "two_records =
     [[(''code'', Str ''1''), (''value'', Num 10)],
      [(''code'', Str ''2'')]]"

subsection \<open>Auxiliary column functions\<close>

text \<open>The rows \<open>drop_duplicates\<close> keeps, in one column.\<close>

definition keep_rows :: "bool list \<Rightarrow> column \<Rightarrow> column" where
  "keep_rows keep c = c\<lparr>cells := select_rows keep (cells c)\<rparr>"

text \<open>What the text fill does to one cell.\<close>

definition fill_cell :: "cell \<Rightarrow> cell" where
  "fill_cell x = (if is_null x then Str sentinel else x)"

subsection \<open>Further concrete tables\<close>

text \<open>Two products with a missing name and a missing \<open>energy_100g\<close> that arrived as text.\<close>

definition text_nulls_table :: table where
  "text_nulls_table =
     \<lparr>index = [0, 1],
      columns = [\<lparr>name = ''code'', dtype = Object, cells = [Str ''1'', Str ''2'']\<rparr>,
                 \<lparr>name = ''name'', dtype = Object, cells = [Str ''Test'', PyNone]\<rparr>,
                 \<lparr>name = ''energy_100g'', dtype = Object, cells = [PyNone, Str ''5'']\<rparr>]\<rparr>"

definition text_nulls_clean :: table where
  "text_nulls_clean =
     \<lparr>index = [0, 1],
      columns = [\<lparr>name = ''code'', dtype = Object, cells = [Str ''1'', Str ''2'']\<rparr>,
                 \<lparr>name = ''name'', dtype = Object, cells = [Str ''Test'', Str sentinel]\<rparr>,
                 \<lparr>name = ''energy_100g'', dtype = Numeric, cells = [NaN, Num 5]\<rparr>]\<rparr>"

text \<open>A table every rule has already been applied to.\<close>

definition tidy_table :: table where
  "tidy_table =
     \<lparr>index = [0, 1],
      columns = [\<lparr>name = ''code'', dtype = Object, cells = [Str ''1'', Str ''2'']\<rparr>,
                 \<lparr>name = ''product_name'', dtype = Object, cells = [Str ''test'', Str ''other'']\<rparr>,
                 \<lparr>name = ''nutriscore_grade'', dtype = Category nutriscore_categories,
                  cells = [Str ''a'', NaN]\<rparr>,
                 \<lparr>name = ''energy_100g'', dtype = Numeric, cells = [Num 5, Num 5]\<rparr>,
                 \<lparr>name = ''packaging_tags'', dtype = Object, cells = [Str ''a, b'', Str sentinel]\<rparr>]\<rparr>"



section \<open>Properties of the fetcher\<close>

subsection \<open>The retry loop\<close>

declare retrying.simps [simp del]

lemma retry_post_stop:
  assumes "n \<le> 3" "slept = map wait_exponential [1 ..< n]"
    and "\<forall>m\<in>{1..<n}. \<exists>e. attempt m = Inl e \<and> retry_if_exception_type e"
    and "\<forall>e. attempt n = Inl e \<and> retry_if_exception_type e \<longrightarrow> n = 3"
  shows "retry_post attempt \<lparr>outcome = attempt n, attempts = n, sleeps = slept\<rparr>"
  unfolding retry_post_def using assms by simp

lemma retrying_inv:
  "1 \<le> n \<Longrightarrow> n \<le> 3 \<Longrightarrow> slept = map wait_exponential [1 ..< n] \<Longrightarrow>
   \<forall>m\<in>{1..<n}. \<exists>e. attempt m = Inl e \<and> retry_if_exception_type e \<Longrightarrow>
   n \<le> attempts (retrying attempt n slept) \<and> retry_post attempt (retrying attempt n slept)"
proof (induction attempt n slept rule: retrying.induct)
  case (1 attempt n slept)
  show ?case
  proof (cases "attempt n")
    case (Inr data)
    then have eq: "retrying attempt n slept = \<lparr>outcome = attempt n, attempts = n, sleeps = slept\<rparr>"
      by (subst retrying.simps) simp
    have "retry_post attempt \<lparr>outcome = attempt n, attempts = n, sleeps = slept\<rparr>"
      using "1.prems" Inr by (intro retry_post_stop) simp_all
    then show ?thesis by (simp add: eq)
  next
    case (Inl e)
    show ?thesis
    proof (cases "retry_if_exception_type e \<and> \<not> stop_after_attempt n")
      case False
      with Inl have eq: "retrying attempt n slept = \<lparr>outcome = attempt n, attempts = n, sleeps = slept\<rparr>"
        by (subst retrying.simps) auto
      have "n = 3" if "retry_if_exception_type e"
        using that False "1.prems"(2) by (simp add: stop_after_attempt_def)
      then have "retry_post attempt \<lparr>outcome = attempt n, attempts = n, sleeps = slept\<rparr>"
        using "1.prems" Inl by (intro retry_post_stop) simp_all
      then show ?thesis by (simp add: eq)
    next
      case True
      have n3: "Suc n \<le> 3" using True by (simp add: stop_after_attempt_def)
      have sl: "slept @ [wait_exponential n] = map wait_exponential [1 ..< Suc n]"
        using "1.prems"(1,3) by simp
      have prev: "\<forall>m\<in>{1..<Suc n}. \<exists>e. attempt m = Inl e \<and> retry_if_exception_type e"
      proof
        fix m assume "m \<in> {1..<Suc n}"
        then have "m \<in> {1..<n} \<or> m = n" by auto
        then show "\<exists>e. attempt m = Inl e \<and> retry_if_exception_type e"
          using "1.prems"(4) Inl True by blast
      qed
      have re: "retry_if_exception_type e" and ns: "\<not> stop_after_attempt n" using True by simp_all
      have ih: "Suc n \<le> attempts (retrying attempt (Suc n) (slept @ [wait_exponential n]))
          \<and> retry_post attempt (retrying attempt (Suc n) (slept @ [wait_exponential n]))"
        using "1.IH" [OF Inl _ ns _ n3 sl prev] re by simp
      have eq: "retrying attempt n slept = retrying attempt (Suc n) (slept @ [wait_exponential n])"
        using True Inl by (subst retrying.simps) simp
      from ih show ?thesis unfolding eq by simp
    qed
  qed
qed

lemma retry_postD:
  assumes "retry_post attempt r"
  shows "attempts r \<le> 3"
    and "outcome r = attempt (attempts r)"
    and "sleeps r = map wait_exponential [1 ..< attempts r]"
    and "\<forall>m\<in>{1..<attempts r}. \<exists>e. attempt m = Inl e \<and> retry_if_exception_type e"
    and "\<forall>e. outcome r = Inl e \<and> retry_if_exception_type e \<longrightarrow> attempts r = 3"
proof -
  from assms have c: "attempts r \<le> 3
   \<and> outcome r = attempt (attempts r)
   \<and> sleeps r = map wait_exponential [1 ..< attempts r]
   \<and> (\<forall>m\<in>{1..<attempts r}. \<exists>e. attempt m = Inl e \<and> retry_if_exception_type e)
   \<and> (\<forall>e. outcome r = Inl e \<and> retry_if_exception_type e \<longrightarrow> attempts r = 3)"
    unfolding retry_post_def .
  from c show "attempts r \<le> 3" by (elim conjE)
  from c show "outcome r = attempt (attempts r)" by (elim conjE)
  from c show "sleeps r = map wait_exponential [1 ..< attempts r]" by (elim conjE)
  from c show "\<forall>m\<in>{1..<attempts r}. \<exists>e. attempt m = Inl e \<and> retry_if_exception_type e" by (elim conjE)
  from c show "\<forall>e. outcome r = Inl e \<and> retry_if_exception_type e \<longrightarrow> attempts r = 3" by (elim conjE)
qed

lemma fetch_page_post:
  "1 \<le> attempts (fetch_page attempt)" "retry_post attempt (fetch_page attempt)"
proof -
  have "1 \<le> attempts (retrying attempt 1 []) \<and> retry_post attempt (retrying attempt 1 [])"
    by (rule retrying_inv) simp_all
  then show "1 \<le> attempts (fetch_page attempt)" "retry_post attempt (fetch_page attempt)"
    by (simp_all add: fetch_page_def)
qed

lemma wait_exponential_bounds: "2 \<le> wait_exponential n \<and> wait_exponential n \<le> 10"
  by (simp add: wait_exponential_def)

lemma wait_exponential_mono: "m \<le> n \<Longrightarrow> wait_exponential m \<le> wait_exponential n"
  unfolding wait_exponential_def
  by (intro max.mono min.mono order_refl mult_le_mono power_increasing diff_le_mono) simp_all

lemma fetch_page_first_ok:
  "attempt 1 = Inr data \<Longrightarrow> fetch_page attempt = \<lparr>outcome = Inr data, attempts = 1, sleeps = []\<rparr>"
  by (simp add: fetch_page_def retrying.simps)

lemma fetch_page_constant:
  assumes "\<forall>n. attempt n = x"
  shows "outcome (fetch_page attempt) = x"
  using retry_postD(2) [OF fetch_page_post(2), of attempt] assms by simp

text \<open>
  C4, amended. A call of \<open>fetch_page\<close> runs the request once, twice or three
  times. What it returns or raises is the outcome of its last attempt; every earlier
  attempt raised an exception of a retried type, and a call that ends with an exception of
  a retried type has used all three attempts. The wait after attempt \<open>n\<close> is
  \<open>wait_exponential n\<close>: 2 seconds after the first attempt, non-decreasing, between 2 and
  10 seconds. The retried types are the timeout, the other transport failures and every
  HTTP status error (4xx and 5xx included); any other exception is raised at once.
\<close>

theorem fetch_page_retry_policy:
  "1 \<le> attempts (fetch_page attempt) \<and> attempts (fetch_page attempt) \<le> 3
   \<and> outcome (fetch_page attempt) = attempt (attempts (fetch_page attempt))
   \<and> sleeps (fetch_page attempt) = map wait_exponential [1 ..< attempts (fetch_page attempt)]
   \<and> (\<forall>w\<in>set (sleeps (fetch_page attempt)). 2 \<le> w \<and> w \<le> 10)
   \<and> wait_exponential 1 = 2
   \<and> (\<forall>m n. m \<le> n \<longrightarrow> wait_exponential m \<le> wait_exponential n)
   \<and> (\<forall>m\<in>{1..<attempts (fetch_page attempt)}. \<exists>e. attempt m = Inl e \<and> retry_if_exception_type e)
   \<and> (\<forall>e. outcome (fetch_page attempt) = Inl e \<and> retry_if_exception_type e \<longrightarrow> attempts (fetch_page attempt) = 3)
   \<and> (\<forall>e. retry_if_exception_type e \<longleftrightarrow> (e = TimeoutException \<or> e = TransportError \<or> (\<exists>code. e = HTTPStatusError code)))"
proof -
  note a1 = fetch_page_post(1) [of attempt]
  note p = retry_postD [OF fetch_page_post(2), of attempt]
  have w: "\<forall>w\<in>set (sleeps (fetch_page attempt)). 2 \<le> w \<and> w \<le> 10"
  proof
    fix w assume "w \<in> set (sleeps (fetch_page attempt))"
    then obtain n where "w = wait_exponential n" unfolding p(3) by auto
    then show "2 \<le> w \<and> w \<le> 10" using wait_exponential_bounds by simp
  qed
  have cls: "\<forall>e. retry_if_exception_type e \<longleftrightarrow> (e = TimeoutException \<or> e = TransportError \<or> (\<exists>code. e = HTTPStatusError code))"
  proof
    fix e show "retry_if_exception_type e \<longleftrightarrow> (e = TimeoutException \<or> e = TransportError \<or> (\<exists>code. e = HTTPStatusError code))"
      by (cases e) simp_all
  qed
  have w1: "wait_exponential 1 = 2" by (simp add: wait_exponential_def)
  have mono: "\<forall>m n. m \<le> n \<longrightarrow> wait_exponential m \<le> wait_exponential n"
    using wait_exponential_mono by blast
  show ?thesis
    by (intro conjI a1 p(1) p(2) p(3) w w1 mono p(4) p(5) cls)
qed

theorem fetch_page_retry_policy_witness:
  "attempts (fetch_page flaky_attempt) = 3
   \<and> outcome (fetch_page flaky_attempt) = Inr (Some [7])
   \<and> sleeps (fetch_page flaky_attempt) = [2, 2]"
proof -
  let ?a = "attempts (fetch_page flaky_attempt)"
  from fetch_page_retry_policy [of flaky_attempt]
  have b: "1 \<le> ?a" "?a \<le> 3"
    and out: "outcome (fetch_page flaky_attempt) = flaky_attempt ?a"
    and sl: "sleeps (fetch_page flaky_attempt) = map wait_exponential [1 ..< ?a]"
    and last: "\<forall>e. outcome (fetch_page flaky_attempt) = Inl e \<and> retry_if_exception_type e \<longrightarrow> ?a = 3"
    by blast+
  have a3: "?a = 3"
  proof (rule ccontr)
    assume "?a \<noteq> 3"
    with b have "?a < 3" by simp
    then have "outcome (fetch_page flaky_attempt) = Inl TimeoutException"
      unfolding out by (simp add: flaky_attempt_def)
    with last have "?a = 3" by simp
    with \<open>?a \<noteq> 3\<close> show False by simp
  qed
  have "[1 ..< 3] = [1, 2::nat]" by (simp add: upt_rec)
  then show ?thesis using out sl unfolding a3
    by (simp add: flaky_attempt_def wait_exponential_def)
qed

text \<open>
  C4 as stated fails: a request answered with status 500 is not raised at once; it is
  run three times, with two waits of 2 seconds, before the error reaches the caller.
\<close>

theorem fetch_page_retries_status_error:
  "attempts (fetch_page failing_500) = 3 \<and> sleeps (fetch_page failing_500) = [2, 2]
   \<and> outcome (fetch_page failing_500) = Inl (HTTPStatusError 500)"
proof -
  have "fetch_page failing_500 = retrying failing_500 (Suc 0) []"
    by (simp add: fetch_page_def)
  also have "\<dots> = retrying failing_500 (Suc (Suc 0)) [wait_exponential (Suc 0)]"
    by (subst retrying.simps) (simp add: failing_500_def stop_after_attempt_def)
  also have "\<dots> = retrying failing_500 (Suc (Suc (Suc 0)))
                      [wait_exponential (Suc 0), wait_exponential (Suc (Suc 0))]"
    by (subst retrying.simps) (simp add: failing_500_def stop_after_attempt_def)
  also have "\<dots> = \<lparr>outcome = Inl (HTTPStatusError 500), attempts = 3,
                      sleeps = [wait_exponential (Suc 0), wait_exponential (Suc (Suc 0))]\<rparr>"
    by (subst retrying.simps) (simp add: failing_500_def stop_after_attempt_def)
  finally show ?thesis by (simp add: wait_exponential_def)
qed

subsection \<open>The pagination loop\<close>

lemma fetch_loop_step_stop:
  "page_stops fp page \<Longrightarrow> fetch_loop fp (page # pages) s = s\<lparr>requested := requested s @ [page]\<rparr>"
  by (auto simp: page_stops_def Let_def split: sum.splits exn.splits)

lemma fetch_loop_step_continue:
  assumes "\<not> page_stops fp page"
  shows "\<exists>s'. fetch_loop fp (page # pages) s = fetch_loop fp pages s'
            \<and> requested s' = requested s @ [page]
            \<and> all_products s' = all_products s @ page_yield fp page"
proof (cases "fp page")
  case (Inl e)
  with assms show ?thesis
    by (cases e) (auto simp: page_stops_def page_yield_def Let_def)
next
  case (Inr data)
  with assms show ?thesis
    by (auto simp: page_stops_def page_yield_def Let_def)
qed

lemma page_stops_yield: "page_stops fp page \<Longrightarrow> page_yield fp page = []"
  by (auto simp: page_stops_def page_yield_def split: sum.splits)

lemma fetch_loop_all_products:
  "all_products (fetch_loop fp pages s) =
     all_products s @ concat (map (page_yield fp) (takeWhile (\<lambda>p. \<not> page_stops fp p) pages))"
proof (induction pages arbitrary: s)
  case Nil
  then show ?case by simp
next
  case (Cons page pages)
  show ?case
  proof (cases "page_stops fp page")
    case True
    then show ?thesis by (simp add: fetch_loop_step_stop del: fetch_loop.simps)
  next
    case False
    from fetch_loop_step_continue [OF False, of pages s] obtain s' where
      "fetch_loop fp (page # pages) s = fetch_loop fp pages s'"
      "all_products s' = all_products s @ page_yield fp page" by blast
    with False show ?thesis by (simp add: Cons.IH del: fetch_loop.simps)
  qed
qed

lemma fetch_loop_requested:
  "requested (fetch_loop fp pages s) =
     requested s @ take (Suc (length (takeWhile (\<lambda>p. \<not> page_stops fp p) pages))) pages"
proof (induction pages arbitrary: s)
  case Nil
  then show ?case by simp
next
  case (Cons page pages)
  show ?case
  proof (cases "page_stops fp page")
    case True
    then show ?thesis by (simp add: fetch_loop_step_stop del: fetch_loop.simps)
  next
    case False
    from fetch_loop_step_continue [OF False, of pages s] obtain s' where
      "fetch_loop fp (page # pages) s = fetch_loop fp pages s'"
      "requested s' = requested s @ [page]" by blast
    with False show ?thesis by (simp add: Cons.IH del: fetch_loop.simps)
  qed
qed

lemma fetch_loop_obtained:
  "all_products s = concat (map (page_yield fp) (requested s)) \<Longrightarrow>
   all_products (fetch_loop fp pages s) = concat (map (page_yield fp) (requested (fetch_loop fp pages s)))"
proof (induction pages arbitrary: s)
  case Nil
  then show ?case by simp
next
  case (Cons page pages)
  show ?case
  proof (cases "page_stops fp page")
    case True
    with Cons.prems show ?thesis
      by (simp add: fetch_loop_step_stop page_stops_yield del: fetch_loop.simps)
  next
    case False
    from fetch_loop_step_continue [OF False, of pages s] obtain s' where s':
      "fetch_loop fp (page # pages) s = fetch_loop fp pages s'"
      "requested s' = requested s @ [page]"
      "all_products s' = all_products s @ page_yield fp page" by blast
    with Cons.prems have "all_products s' = concat (map (page_yield fp) (requested s'))"
      by simp
    from Cons.IH [OF this] s'(1) show ?thesis by simp
  qed
qed

lemma run_all_products:
  "all_products (fetch_all_run http) =
     concat (map (page_yield (fetch_page_outcome http))
       (takeWhile (\<lambda>p. \<not> page_stops (fetch_page_outcome http) p) [1 ..< MAX_PAGES + 1]))"
  by (simp add: fetch_all_run_def fetch_loop_all_products del: upt_Suc)

lemma run_requested:
  "requested (fetch_all_run http) =
     take (Suc (length (takeWhile (\<lambda>p. \<not> page_stops (fetch_page_outcome http) p) [1 ..< MAX_PAGES + 1])))
       [1 ..< MAX_PAGES + 1]"
  by (simp add: fetch_all_run_def fetch_loop_requested del: upt_Suc)

lemma run_obtained: "all_products (fetch_all_run http) = records_obtained http"
  unfolding fetch_all_run_def records_obtained_def by (rule fetch_loop_obtained) simp

lemma takeWhile_upt_prefix:
  assumes "a \<le> k" "k \<le> n" "\<forall>p\<in>{a..<k}. P p" "k = n \<or> \<not> P k"
  shows "takeWhile P [a ..< n] = [a ..< k]"
proof -
  have split: "[a ..< n] = [a ..< k] @ [k ..< n]"
    using assms(1,2) by (metis le_Suc_ex upt_add_eq_append)
  have all: "\<forall>x\<in>set [a ..< k]. P x" using assms(3) by simp
  show ?thesis
  proof (cases "k = n")
    case True
    with all show ?thesis by (simp add: takeWhile_eq_all_conv[THEN iffD2])
  next
    case False
    with assms have "k < n" "\<not> P k" by auto
    then have "[k ..< n] = k # [Suc k ..< n]" by (simp add: upt_conv_Cons)
    moreover have "takeWhile P ([a ..< k] @ k # [Suc k ..< n]) = [a ..< k] @ takeWhile P (k # [Suc k ..< n])"
      using all by (intro takeWhile_append2) simp
    ultimately show ?thesis using split \<open>\<not> P k\<close> by simp
  qed
qed

lemma take_upt_min: "take m [i ..< n] = [i ..< min (i + m) n]"
proof (cases "i + m \<le> n")
  case True
  then show ?thesis by (simp add: take_upt min_def del: upt_Suc)
next
  case False
  then have "length [i ..< n] \<le> m" by simp
  then have "take m [i ..< n] = [i ..< n]" by (rule take_all)
  with False show ?thesis by (simp add: min_def del: upt_Suc)
qed

text \<open>
  The run when pages \<open>1..k-1\<close> do not end the pagination and page \<open>k\<close> does, or when
  no page up to the limit does (\<open>k = MAX_PAGES + 1\<close>).
\<close>

lemma run_prefix:
  assumes "1 \<le> k" "k \<le> MAX_PAGES + 1"
    and "\<forall>p\<in>{1..<k}. \<not> page_stops (fetch_page_outcome http) p"
    and "k = MAX_PAGES + 1 \<or> page_stops (fetch_page_outcome http) k"
  shows "all_products (fetch_all_run http) = concat (map (page_yield (fetch_page_outcome http)) [1 ..< k])"
    and "requested (fetch_all_run http) = [1 ..< Suc (min k MAX_PAGES)]"
proof -
  let ?P = "\<lambda>p. \<not> page_stops (fetch_page_outcome http) p"
  have tw: "takeWhile ?P [1 ..< MAX_PAGES + 1] = [1 ..< k]"
    using assms by (intro takeWhile_upt_prefix) auto
  show "all_products (fetch_all_run http) = concat (map (page_yield (fetch_page_outcome http)) [1 ..< k])"
    by (simp only: run_all_products tw)
  have "requested (fetch_all_run http) = take (Suc (length [1 ..< k])) [1 ..< MAX_PAGES + 1]"
    by (simp only: run_requested tw)
  also have "\<dots> = [1 ..< min (1 + Suc (length [1 ..< k])) (MAX_PAGES + 1)]"
    by (rule take_upt_min)
  also have "min (1 + Suc (length [1 ..< k])) (MAX_PAGES + 1) = Suc (min k MAX_PAGES)"
    using assms(1,2) by (simp add: min_def del: upt_Suc)
  finally show "requested (fetch_all_run http) = [1 ..< Suc (min k MAX_PAGES)]" .
qed

lemma fetch_all_data_alt:
  "fetch_all_data http =
     (if all_products (fetch_all_run http) = [] then Inl ValueError
      else Inr (all_products (fetch_all_run http)))"
  by (simp add: fetch_all_data_def Let_def)

lemma first_page_stops:
  assumes "page_stops (fetch_page_outcome http) 1"
  shows "all_products (fetch_all_run http) = []" "requested (fetch_all_run http) = [1]"
    "fetch_all_data http = Inl ValueError"
proof -
  have a: "all_products (fetch_all_run http) = concat (map (page_yield (fetch_page_outcome http)) [1 ..< 1])"
    and r: "requested (fetch_all_run http) = [1 ..< Suc (min 1 MAX_PAGES)]"
    using assms by (intro run_prefix; simp)+
  from a show "all_products (fetch_all_run http) = []" by simp
  then show "fetch_all_data http = Inl ValueError" by (simp add: fetch_all_data_alt)
  from r show "requested (fetch_all_run http) = [1]" by (simp add: MAX_PAGES_def)
qed

text \<open>
  C1, amended. Let the requests for pages \<open>1..k\<close> (\<open>1 \<le> k \<le> MAX_PAGES\<close>) each return a
  non-empty product list \<open>pages p\<close>, and let the request for page \<open>k + 1\<close> return an
  empty list unless \<open>k\<close> is the page limit. Then \<open>fetch_all_data\<close> returns the products of pages
  \<open>1..k\<close> in page order, their number is the sum of the page counts, and the pages
  requested are \<open>1..k+1\<close> (\<open>1..k\<close> at the limit).
\<close>

theorem fetch_all_data_consecutive_pages:
  assumes k: "1 \<le> k" "k \<le> MAX_PAGES"
    and ok: "\<forall>p\<in>{1..k}. fetch_page_outcome http p = Inr (Some (pages p)) \<and> pages p \<noteq> []"
    and fin: "k = MAX_PAGES \<or>
              (\<exists>data. fetch_page_outcome http (Suc k) = Inr data \<and> products_of data = [])"
  shows "fetch_all_data http = Inr (concat (map pages [1 ..< Suc k]))
       \<and> length (concat (map pages [1 ..< Suc k])) = (\<Sum>p\<leftarrow>[1 ..< Suc k]. length (pages p))
       \<and> requested (fetch_all_run http) = [1 ..< Suc (min (Suc k) MAX_PAGES)]"
proof -
  let ?fp = "fetch_page_outcome http"
  have fp: "?fp p = Inr (Some (pages p))" and ne: "pages p \<noteq> []" if "p \<in> {1..k}" for p
    using ok that by auto
  have cont: "\<forall>p\<in>{1..<Suc k}. \<not> page_stops ?fp p"
    using fp ne by (auto simp: page_stops_def products_of_def)
  have stop: "Suc k = MAX_PAGES + 1 \<or> page_stops ?fp (Suc k)"
    using fin by (auto simp: page_stops_def)
  have k': "1 \<le> Suc k" "Suc k \<le> MAX_PAGES + 1" using k by simp_all
  note run = run_prefix [OF k' cont stop]
  have yield: "map (page_yield ?fp) [1 ..< Suc k] = map pages [1 ..< Suc k]"
    using fp by (auto simp: page_yield_def products_of_def)
  have acc: "all_products (fetch_all_run http) = concat (map pages [1 ..< Suc k])"
    by (simp only: run(1) yield)
  have "1 \<in> set [1 ..< Suc k]" using k by auto
  then have "pages 1 \<in> set (map pages [1 ..< Suc k])" by (simp only: set_map) (rule imageI)
  moreover have "pages 1 \<noteq> []" using ne k by auto
  ultimately have nonempty: "concat (map pages [1 ..< Suc k]) \<noteq> []"
    by (metis concat_eq_Nil_conv)
  have r1: "fetch_all_data http = Inr (concat (map pages [1 ..< Suc k]))"
    using acc nonempty by (simp add: fetch_all_data_alt del: upt_Suc)
  have r2: "length (concat (map pages [1 ..< Suc k])) = (\<Sum>p\<leftarrow>[1 ..< Suc k]. length (pages p))"
    by (simp add: length_concat comp_def del: upt_Suc)
  from r1 r2 run(2) show ?thesis by blast
qed

text \<open>
  The scenario of C1: for the page sequence 10, 10, 10, 0 items the result holds the 30
  records of pages 1 to 3, and exactly the pages 1, 2, 3, 4 are requested.
\<close>

theorem fetch_all_data_scenario_30_records:
  "fetch_all_data scenario_http = Inr (concat (map scenario_page [1, 2, 3]))
   \<and> length (concat (map scenario_page [1, 2, 3])) = 30
   \<and> requested (fetch_all_run scenario_http) = [1, 2, 3, 4]"
proof -
  have k: "(1::nat) \<le> 3" "3 \<le> MAX_PAGES" by (simp_all add: MAX_PAGES_def)
  have out: "fetch_page_outcome scenario_http p = Inr (Some (scenario_page p))" for p
    by (simp add: fetch_page_outcome_def fetch_page_first_ok scenario_http_def)
  have ok: "\<forall>p\<in>{1..3}. fetch_page_outcome scenario_http p = Inr (Some (scenario_page p))
              \<and> scenario_page p \<noteq> []"
    by (simp add: out scenario_page_def)
  have fin: "3 = MAX_PAGES \<or>
      (\<exists>data. fetch_page_outcome scenario_http (Suc 3) = Inr data \<and> products_of data = [])"
    by (simp add: out scenario_page_def products_of_def)
  have u3: "[1 ..< Suc 3] = [1, 2, 3]" and u4: "[1 ..< Suc (min (Suc 3) MAX_PAGES)] = [1, 2, 3, 4]"
    by (simp_all add: upt_rec MAX_PAGES_def)
  have len: "(\<Sum>p\<leftarrow>[1, 2, 3]. length (scenario_page p)) = 30"
    by (simp add: scenario_page_def)
  from fetch_all_data_consecutive_pages [of 3 scenario_http scenario_page, OF k ok fin]
  show ?thesis
    unfolding u3 u4 len by simp
qed

text \<open>
  C1 as stated fails: a server whose page 2 is non-empty has a non-empty page, but when
  its page 1 is empty the loop ends there and \<open>fetch_all_data\<close> raises.
\<close>

theorem fetch_all_data_late_page_raises:
  "gap_http 2 1 = Inr (Some [7]) \<and> fetch_all_data gap_http = Inl ValueError
   \<and> requested (fetch_all_run gap_http) = [1]"
proof -
  have "fetch_page_outcome gap_http 1 = Inr (Some [])"
    by (simp add: fetch_page_outcome_def fetch_page_first_ok gap_http_def)
  then have "page_stops (fetch_page_outcome gap_http) 1"
    by (simp add: page_stops_def products_of_def)
  from first_page_stops(2,3) [OF this] show ?thesis by (simp add: gap_http_def)
qed

subsection \<open>Runs of the concrete servers\<close>

lemma mixed_http_outcomes:
  "fetch_page_outcome mixed_http 1 = Inl (HTTPStatusError 500)"
  "fetch_page_outcome mixed_http 2 = Inr (Some [7])"
  "fetch_page_outcome mixed_http 3 = Inl (HTTPStatusError 404)"
  unfolding fetch_page_outcome_def
  by (rule fetch_page_constant, simp add: mixed_http_def)+

lemma mixed_http_stops:
  "\<not> page_stops (fetch_page_outcome mixed_http) 1"
  "\<not> page_stops (fetch_page_outcome mixed_http) 2"
  "page_stops (fetch_page_outcome mixed_http) 3"
  using mixed_http_outcomes by (simp_all add: page_stops_def products_of_def)

lemma mixed_http_before_3: "\<forall>p\<in>{1..<3}. \<not> page_stops (fetch_page_outcome mixed_http) p"
proof
  fix p :: nat assume "p \<in> {1..<3}"
  then have "p = 1 \<or> p = 2" by auto
  then show "\<not> page_stops (fetch_page_outcome mixed_http) p"
    using mixed_http_stops by auto
qed

lemma mixed_http_yields:
  "map (page_yield (fetch_page_outcome mixed_http)) [1, 2] = [[], [7]]"
  using mixed_http_outcomes by (simp add: page_yield_def products_of_def)

lemma upt_1_3: "[1 ..< 3] = [1, 2::nat]"
  by (simp add: upt_rec)

lemma mixed_http_run:
  "all_products (fetch_all_run mixed_http) = [7]"
  "requested (fetch_all_run mixed_http) = [1, 2, 3]"
proof -
  have k: "(1::nat) \<le> 3" "3 \<le> MAX_PAGES + 1" by (simp_all add: MAX_PAGES_def)
  have stop: "3 = MAX_PAGES + 1 \<or> page_stops (fetch_page_outcome mixed_http) 3"
    using mixed_http_stops(3) by simp
  note run = run_prefix [of 3 mixed_http, OF k mixed_http_before_3 stop]
  from run(1) show "all_products (fetch_all_run mixed_http) = [7]"
    unfolding upt_1_3 mixed_http_yields by simp
  from run(2) show "requested (fetch_all_run mixed_http) = [1, 2, 3]"
    by (simp add: MAX_PAGES_def upt_rec)
qed

lemma empty_http_stops: "page_stops (fetch_page_outcome empty_http) 1"
  by (simp add: page_stops_def fetch_page_outcome_def fetch_page_first_ok empty_http_def products_of_def)

lemma not_found_http_outcome: "fetch_page_outcome not_found_http page = Inl (HTTPStatusError 404)"
  unfolding fetch_page_outcome_def by (rule fetch_page_constant) (simp add: not_found_http_def)

subsection \<open>No data\<close>

text \<open>
  C5. \<open>fetch_all_data\<close> raises \<open>ValueError\<close> (the no-data error) exactly when the pages it
  requested yielded no record at all; when they yielded some, it returns them; and when
  every requested page yielded no product, it raises.
\<close>

theorem fetch_all_data_no_data_iff:
  "(fetch_all_data http = Inl ValueError \<longleftrightarrow> records_obtained http = [])
   \<and> (records_obtained http \<noteq> [] \<longrightarrow> fetch_all_data http = Inr (records_obtained http))
   \<and> ((\<forall>page\<in>set (requested (fetch_all_run http)). page_yield (fetch_page_outcome http) page = [])
        \<longrightarrow> fetch_all_data http = Inl ValueError)"
proof -
  have a: "fetch_all_data http = Inl ValueError \<longleftrightarrow> records_obtained http = []"
    by (simp add: fetch_all_data_alt run_obtained)
  have b: "records_obtained http \<noteq> [] \<longrightarrow> fetch_all_data http = Inr (records_obtained http)"
    by (simp add: fetch_all_data_alt run_obtained)
  have c: "fetch_all_data http = Inl ValueError"
    if "\<forall>page\<in>set (requested (fetch_all_run http)). page_yield (fetch_page_outcome http) page = []"
  proof -
    from that have "records_obtained http = []"
      unfolding records_obtained_def by simp
    with a show ?thesis by simp
  qed
  from a b c show ?thesis by blast
qed

theorem fetch_all_data_no_data_iff_witness:
  "records_obtained mixed_http = [7] \<and> fetch_all_data mixed_http = Inr [7]
   \<and> requested (fetch_all_run empty_http) = [1]
   \<and> page_yield (fetch_page_outcome empty_http) 1 = []
   \<and> fetch_all_data empty_http = Inl ValueError"
proof -
  have got: "records_obtained mixed_http = [7]"
    using mixed_http_run(1) by (simp add: run_obtained)
  then have "records_obtained mixed_http \<noteq> []" by simp
  with fetch_all_data_no_data_iff [of mixed_http]
  have r1: "fetch_all_data mixed_http = Inr [7]" using got by simp
  have none: "\<forall>page\<in>set (requested (fetch_all_run empty_http)).
      page_yield (fetch_page_outcome empty_http) page = []"
    using first_page_stops(2) [OF empty_http_stops] page_stops_yield [OF empty_http_stops] by simp
  with fetch_all_data_no_data_iff [of empty_http]
  have r2: "fetch_all_data empty_http = Inl ValueError" by blast
  from got r1 r2 first_page_stops(2) [OF empty_http_stops] page_stops_yield [OF empty_http_stops]
  show ?thesis by blast
qed

subsection \<open>HTTP status errors during pagination\<close>

text \<open>
  C6, amended. Let page \<open>k\<close> be reached (no earlier page ended the pagination) and let
  its request end with an HTTP status error. If the status is 404, no further page is
  requested and the run ends with the records accumulated from pages \<open>1..k-1\<close>:
  \<open>fetch_all_data\<close> returns them when there are some and raises \<open>ValueError\<close> when there
  are none. If the status is another one, page \<open>k\<close> contributes nothing and, unless \<open>k\<close>
  is the page limit, page \<open>k + 1\<close> is requested next.
\<close>

theorem fetch_all_data_status_errors:
  assumes k: "1 \<le> k" "k \<le> MAX_PAGES"
    and before: "\<forall>p\<in>{1..<k}. \<not> page_stops (fetch_page_outcome http) p"
    and err: "fetch_page_outcome http k = Inl (HTTPStatusError code)"
  shows "(code = 404 \<longrightarrow>
            requested (fetch_all_run http) = [1 ..< Suc k]
          \<and> all_products (fetch_all_run http) = concat (map (page_yield (fetch_page_outcome http)) [1 ..< k])
          \<and> fetch_all_data http =
              (if concat (map (page_yield (fetch_page_outcome http)) [1 ..< k]) = [] then Inl ValueError
               else Inr (concat (map (page_yield (fetch_page_outcome http)) [1 ..< k]))))
       \<and> (code \<noteq> 404 \<longrightarrow>
            page_yield (fetch_page_outcome http) k = []
          \<and> all_products (fetch_all_run http) = records_obtained http
          \<and> (k < MAX_PAGES \<longrightarrow> take (Suc k) (requested (fetch_all_run http)) = [1 ..< Suc (Suc k)]))"
proof -
  let ?fp = "fetch_page_outcome http"
  let ?P = "\<lambda>p. \<not> page_stops ?fp p"
  have part1: "requested (fetch_all_run http) = [1 ..< Suc k]
          \<and> all_products (fetch_all_run http) = concat (map (page_yield ?fp) [1 ..< k])
          \<and> fetch_all_data http =
              (if concat (map (page_yield ?fp) [1 ..< k]) = [] then Inl ValueError
               else Inr (concat (map (page_yield ?fp) [1 ..< k])))" if "code = 404"
  proof -
    have stop: "k = MAX_PAGES + 1 \<or> page_stops ?fp k"
      using err that by (simp add: page_stops_def)
    have k': "k \<le> MAX_PAGES + 1" using k by simp
    note run = run_prefix [OF k(1) k' before stop]
    have "min k MAX_PAGES = k" using k by simp
    with run(2) have r: "requested (fetch_all_run http) = [1 ..< Suc k]" by simp
    from run(1) have d: "fetch_all_data http =
              (if concat (map (page_yield ?fp) [1 ..< k]) = [] then Inl ValueError
               else Inr (concat (map (page_yield ?fp) [1 ..< k])))"
      by (simp add: fetch_all_data_alt)
    from r run(1) d show ?thesis by blast
  qed
  have part2: "page_yield ?fp k = []
          \<and> all_products (fetch_all_run http) = records_obtained http
          \<and> (k < MAX_PAGES \<longrightarrow> take (Suc k) (requested (fetch_all_run http)) = [1 ..< Suc (Suc k)])"
    if "code \<noteq> 404"
  proof -
    have y: "page_yield ?fp k = []" using err by (simp add: page_yield_def)
    have go: "?P k" using err that by (simp add: page_stops_def)
    have next_page: "take (Suc k) (requested (fetch_all_run http)) = [1 ..< Suc (Suc k)]" if "k < MAX_PAGES"
    proof -
      have all: "\<forall>p\<in>set [1 ..< Suc k]. ?P p"
      proof
        fix p assume "p \<in> set [1 ..< Suc k]"
        then have "p \<in> {1..<k} \<or> p = k" by auto
        then show "?P p" using before go by blast
      qed
      have split: "[1 ..< MAX_PAGES + 1] = [1 ..< Suc k] @ [Suc k ..< MAX_PAGES + 1]"
        using k that by (metis Suc_eq_plus1 le_Suc_ex less_or_eq_imp_le not_less_eq_eq upt_add_eq_append le_SucI)
      have "takeWhile ?P ([1 ..< Suc k] @ [Suc k ..< MAX_PAGES + 1])
            = [1 ..< Suc k] @ takeWhile ?P [Suc k ..< MAX_PAGES + 1]"
        using all by (intro takeWhile_append2) blast
      then have "k \<le> length (takeWhile ?P [1 ..< MAX_PAGES + 1])"
        unfolding split by simp
      then have "take (Suc k) (requested (fetch_all_run http)) = take (Suc k) [1 ..< MAX_PAGES + 1]"
        unfolding run_requested by (simp add: min_def del: upt_Suc)
      also have "\<dots> = [1 ..< min (1 + Suc k) (MAX_PAGES + 1)]" by (rule take_upt_min)
      also have "min (1 + Suc k) (MAX_PAGES + 1) = Suc (Suc k)" using that by simp
      finally show ?thesis .
    qed
    from y run_obtained next_page show ?thesis by blast
  qed
  from part1 part2 show ?thesis by blast
qed

theorem fetch_all_data_status_errors_witness:
  "fetch_page_outcome mixed_http 1 = Inl (HTTPStatusError 500)
   \<and> take 2 (requested (fetch_all_run mixed_http)) = [1, 2]
   \<and> fetch_page_outcome mixed_http 3 = Inl (HTTPStatusError 404)
   \<and> requested (fetch_all_run mixed_http) = [1, 2, 3]
   \<and> fetch_all_data mixed_http = Inr [7]"
proof -
  have k1: "(1::nat) \<le> 1" "1 \<le> MAX_PAGES" and k3: "(1::nat) \<le> 3" "3 \<le> MAX_PAGES"
    by (simp_all add: MAX_PAGES_def)
  have b1: "\<forall>p\<in>{1..<1::nat}. \<not> page_stops (fetch_page_outcome mixed_http) p" by simp
  from fetch_all_data_status_errors [of 1 mixed_http 500, OF k1 b1 mixed_http_outcomes(1)]
  have "take (Suc 1) (requested (fetch_all_run mixed_http)) = [1 ..< Suc (Suc 1)]"
    by (simp add: MAX_PAGES_def)
  then have r1: "take 2 (requested (fetch_all_run mixed_http)) = [1, 2]"
    by (simp add: upt_rec numeral_2_eq_2)
  from fetch_all_data_status_errors [of 3 mixed_http 404, OF k3 mixed_http_before_3 mixed_http_outcomes(3)]
  have "requested (fetch_all_run mixed_http) = [1 ..< Suc 3]"
    and "fetch_all_data mixed_http =
          (if concat (map (page_yield (fetch_page_outcome mixed_http)) [1 ..< 3]) = [] then Inl ValueError
           else Inr (concat (map (page_yield (fetch_page_outcome mixed_http)) [1 ..< 3])))"
    by simp_all
  then have r3: "requested (fetch_all_run mixed_http) = [1, 2, 3]"
    and d: "fetch_all_data mixed_http = Inr [7]"
    unfolding upt_1_3 mixed_http_yields by (simp_all add: upt_rec)
  from mixed_http_outcomes(1,3) r1 r3 d show ?thesis by blast
qed

text \<open>
  C6 as stated fails: when page 1 answers 404, nothing has been accumulated, and the
  run does not return; it fails with \<open>ValueError\<close>.
\<close>

theorem fetch_all_data_404_first_page_raises:
  "fetch_page_outcome not_found_http 1 = Inl (HTTPStatusError 404)
   \<and> fetch_all_data not_found_http = Inl ValueError"
proof -
  have "page_stops (fetch_page_outcome not_found_http) 1"
    by (simp add: page_stops_def not_found_http_outcome)
  from first_page_stops(3) [OF this] not_found_http_outcome [of 1] show ?thesis by simp
qed



section \<open>Properties of the transformer\<close>

subsection \<open>Rules as maps over the columns\<close>

lemma map_columns_id: "map_columns (\<lambda>c. c) df = df"
  by (simp add: map_columns_def)

lemma map_columns_comp: "map_columns g (map_columns f df) = map_columns (\<lambda>c. g (f c)) df"
  by (simp add: map_columns_def comp_def)

lemma map_columns_cong:
  "(\<And>c. c \<in> set (columns df) \<Longrightarrow> g c = g' c) \<Longrightarrow> map_columns g df = map_columns g' df"
  by (simp add: map_columns_def)

lemma map_columns_fix:
  "(\<And>c. c \<in> set (columns df) \<Longrightarrow> g c = c) \<Longrightarrow> map_columns g df = df"
  by (simp add: map_columns_def map_idI)

lemma columns_map_columns [simp]: "columns (map_columns g df) = map g (columns df)"
  by (simp add: map_columns_def)

lemma index_map_columns [simp]: "index (map_columns g df) = index df"
  by (simp add: map_columns_def)

lemma assign_column_map:
  "assign_column col f df = map_columns (\<lambda>c. if name c = col then f c else c) df"
  by (simp add: assign_column_def map_columns_def)

lemma assign_column_absent: "\<not> has_column df col \<Longrightarrow> assign_column col f df = df"
  unfolding assign_column_map has_column_def
  by (rule map_columns_fix) auto

lemma foldl_assign:
  assumes nm: "\<And>c. name (f c) = name c"
  shows "distinct cols \<Longrightarrow>
    foldl (\<lambda>d col. assign_column col f d) df cols
      = map_columns (\<lambda>c. if name c \<in> set cols then f c else c) df"
proof (induction cols arbitrary: df)
  case Nil
  then show ?case by (simp add: map_columns_id)
next
  case (Cons col cols)
  then have d: "distinct cols" and notin: "col \<notin> set cols" by simp_all
  have "foldl (\<lambda>d col. assign_column col f d) df (col # cols)
      = foldl (\<lambda>d col. assign_column col f d) (assign_column col f df) cols"
    by simp
  also have "\<dots> = map_columns (\<lambda>c. if name c \<in> set cols then f c else c) (assign_column col f df)"
    by (rule Cons.IH [OF d])
  also have "\<dots> = map_columns (\<lambda>c. if name c \<in> set cols then f c else c)
          (map_columns (\<lambda>c. if name c = col then f c else c) df)"
    by (simp only: assign_column_map)
  also have "\<dots> = map_columns (\<lambda>c. if name c \<in> set (col # cols) then f c else c) df"
    unfolding map_columns_comp
    by (rule map_columns_cong) (use notin nm in auto)
  finally show ?case .
qed

lemma foldl_assign_present:
  assumes nm: "\<And>c. name (f c) = name c" and d: "distinct cols"
  shows "foldl (\<lambda>d col. if has_column d col then assign_column col f d else d) df cols
      = map_columns (\<lambda>c. if name c \<in> set cols then f c else c) df"
proof -
  have "(\<lambda>d col. if has_column d col then assign_column col f d else d)
      = (\<lambda>d col. assign_column col f d)"
    by (intro ext) (simp add: assign_column_absent)
  then show ?thesis using foldl_assign [of f cols df, OF nm d] by simp
qed

lemma name_fill_text_column [simp]: "name (fill_text_column c) = name c"
  by (simp add: fill_text_column_def fillna_def)

lemma dtype_fill_text_column [simp]: "dtype (fill_text_column c) = dtype c"
  by (simp add: fill_text_column_def fillna_def)

lemma name_fill_numeric_column [simp]: "name (fill_numeric_column c) = name c"
  by (simp add: fill_numeric_column_def fillna_def split: option.splits)

lemma dtype_fill_numeric_column [simp]: "dtype (fill_numeric_column c) = dtype c"
  by (simp add: fill_numeric_column_def fillna_def split: option.splits)

lemma name_normalize_column [simp]: "name (normalize_column lib c) = name c"
  by (simp add: normalize_column_def astype_str_def Let_def)

lemma name_astype_str [simp]: "name (astype_str lib c) = name c"
  by (simp add: astype_str_def)

lemma name_Categorical [simp]: "name (Categorical cats c) = name c"
  by (simp add: Categorical_def)

lemma name_set_where [simp]: "name (set_where p v c) = name c"
  by (simp add: set_where_def)

lemma name_clip_outliers [simp]: "name (clip_outliers c) = name c"
  by (simp add: clip_outliers_def Let_def split: option.splits)

lemma name_clean_numeric_column [simp]: "name (clean_numeric_column lib c) = name c"
  by (simp add: clean_numeric_column_def to_numeric_def Let_def)

lemma name_flatten_column [simp]: "name (flatten_column lib c) = name c"
  by (simp add: flatten_column_def)

lemma selected_names:
  assumes "distinct (map name cs)" "c \<in> set cs"
  shows "name c \<in> set (map name (filter P cs)) \<longleftrightarrow> P c"
proof
  assume "name c \<in> set (map name (filter P cs))"
  then obtain c' where c': "c' \<in> set cs" "P c'" "name c' = name c" by auto
  from assms(1) have "inj_on name (set cs)" by (simp add: distinct_map)
  with c' assms(2) have "c' = c" by (auto dest: inj_onD)
  with c' show "P c" by simp
next
  assume "P c"
  with assms(2) show "name c \<in> set (map name (filter P cs))" by auto
qed

lemma fill_text_map:
  assumes "distinct (map name (columns df))"
  shows "fill_text df = map_columns (\<lambda>c. if dtype c = Object then fill_text_column c else c) df"
proof -
  have d: "distinct (select_dtypes_text df)"
    unfolding select_dtypes_text_def using assms by (rule distinct_map_filter)
  have "fill_text df = map_columns (\<lambda>c. if name c \<in> set (select_dtypes_text df) then fill_text_column c else c) df"
    unfolding fill_text_def by (rule foldl_assign [OF _ d]) simp
  also have "\<dots> = map_columns (\<lambda>c. if dtype c = Object then fill_text_column c else c) df"
  proof (rule map_columns_cong)
    fix c assume "c \<in> set (columns df)"
    from selected_names [OF assms this, of "\<lambda>c. dtype c = Object"]
    have "name c \<in> set (select_dtypes_text df) \<longleftrightarrow> dtype c = Object"
      by (simp only: select_dtypes_text_def)
    then show "(if name c \<in> set (select_dtypes_text df) then fill_text_column c else c)
        = (if dtype c = Object then fill_text_column c else c)" by simp
  qed
  finally show ?thesis .
qed

lemma fill_numeric_map:
  assumes "distinct (map name (columns df))"
  shows "fill_numeric df = map_columns (\<lambda>c. if dtype c = Numeric then fill_numeric_column c else c) df"
proof -
  have d: "distinct (select_dtypes_number df)"
    unfolding select_dtypes_number_def using assms by (rule distinct_map_filter)
  have "fill_numeric df = map_columns (\<lambda>c. if name c \<in> set (select_dtypes_number df) then fill_numeric_column c else c) df"
    unfolding fill_numeric_def by (rule foldl_assign [OF _ d]) simp
  also have "\<dots> = map_columns (\<lambda>c. if dtype c = Numeric then fill_numeric_column c else c) df"
  proof (rule map_columns_cong)
    fix c assume "c \<in> set (columns df)"
    from selected_names [OF assms this, of "\<lambda>c. dtype c = Numeric"]
    have "name c \<in> set (select_dtypes_number df) \<longleftrightarrow> dtype c = Numeric"
      by (simp only: select_dtypes_number_def)
    then show "(if name c \<in> set (select_dtypes_number df) then fill_numeric_column c else c)
        = (if dtype c = Numeric then fill_numeric_column c else c)" by simp
  qed
  finally show ?thesis .
qed

lemma fill_both_map:
  assumes "distinct (map name (columns df))"
  shows "fill_numeric (fill_text df) = map_columns fill_rule df"
proof -
  have "map name (columns (fill_text df)) = map name (columns df)"
    by (simp add: fill_text_map [OF assms] comp_def)
  with assms have d: "distinct (map name (columns (fill_text df)))" by simp
  show ?thesis
    unfolding fill_numeric_map [OF d] unfolding fill_text_map [OF assms] map_columns_comp
    by (rule map_columns_cong) (simp add: fill_rule_def)
qed

lemma normalize_text_map: "normalize_text lib df = map_columns (normalize_rule lib) df"
  unfolding normalize_text_def normalize_rule_def
  by (rule foldl_assign_present) (simp_all add: text_cols_to_normalize_def)

lemma clean_numeric_map: "clean_numeric lib df = map_columns (numeric_rule lib) df"
  unfolding clean_numeric_def numeric_rule_def
  by (rule foldl_assign_present) (simp_all add: numeric_cols_to_clean_def)

lemma flatten_lists_map: "flatten_lists lib df = map_columns (list_rule lib) df"
  unfolding flatten_lists_def list_rule_def
  by (rule foldl_assign_present) (simp_all add: list_cols_def)

lemma code_to_str_map: "code_to_str lib df = map_columns (code_rule lib) df"
proof (cases "has_column df ''code''")
  case True
  then show ?thesis by (simp add: code_to_str_def code_rule_def [abs_def] assign_column_map)
next
  case False
  from assign_column_absent [OF this, of "astype_str lib"] False show ?thesis
    by (simp add: code_to_str_def code_rule_def [abs_def] assign_column_map)
qed

lemma nutriscore_to_category_map:
  "nutriscore_to_category df = Inr out \<Longrightarrow> out = map_columns nutriscore_rule df"
proof (cases "get_column df ''nutriscore_grade''")
  case None
  assume "nutriscore_to_category df = Inr out"
  with None have "out = df" by (simp add: nutriscore_to_category_def)
  moreover have "\<not> has_column df ''nutriscore_grade''"
    using None by (auto simp: get_column_def has_column_def find_None_iff)
  ultimately show ?thesis
    using assign_column_absent [of df "''nutriscore_grade''" "Categorical nutriscore_categories"]
    by (simp add: assign_column_map nutriscore_rule_def [abs_def])
next
  case (Some c)
  assume "nutriscore_to_category df = Inr out"
  with Some show ?thesis
    by (simp add: nutriscore_to_category_def assign_column_map nutriscore_rule_def [abs_def] split: if_splits)
qed

lemma clean_rules_map:
  assumes "distinct (map name (columns d1))" "clean_rules lib d1 = Inr out"
  shows "out = map_columns (column_rules lib) d1"
proof -
  let ?d5 = "code_to_str lib (normalize_text lib (fill_numeric (fill_text d1)))"
  from assms(2) obtain d6 where d6: "nutriscore_to_category ?d5 = Inr d6"
    and out: "out = flatten_lists lib (clean_numeric lib d6)"
    by (auto simp: clean_rules_def Let_def split: sum.splits)
  have "?d5 = map_columns (\<lambda>c. code_rule lib (normalize_rule lib (fill_rule c))) d1"
    by (simp add: fill_both_map [OF assms(1)] normalize_text_map code_to_str_map map_columns_comp)
  with nutriscore_to_category_map [OF d6]
  have "d6 = map_columns (\<lambda>c. nutriscore_rule (code_rule lib (normalize_rule lib (fill_rule c)))) d1"
    by (simp add: map_columns_comp)
  with out show ?thesis
    by (simp add: clean_numeric_map flatten_lists_map map_columns_comp column_rules_def later_rules_def)
qed

subsection \<open>Duplicates\<close>

lemma select_rows_Nil [simp]: "select_rows keep [] = []" "select_rows [] xs = []"
  by (simp_all add: select_rows_def)

lemma select_rows_Cons [simp]:
  "select_rows (b # bs) (x # xs) = (if b then x # select_rows bs xs else select_rows bs xs)"
  by (simp add: select_rows_def)

lemma set_select_rows: "set (select_rows keep xs) \<subseteq> set xs"
  unfolding select_rows_def by (auto dest: set_zip_rightD)

lemma select_rows_all:
  "length xs \<le> n \<Longrightarrow> select_rows (replicate n True) xs = xs"
proof (induction xs arbitrary: n)
  case Nil
  then show ?case by simp
next
  case (Cons x xs)
  then obtain m where "n = Suc m" by (cases n) auto
  with Cons show ?case by simp
qed

lemma first_seen_fresh:
  "distinct vs \<Longrightarrow> set vs \<inter> set seen = {} \<Longrightarrow> first_seen seen vs = replicate (length vs) True"
  by (induction vs arbitrary: seen) auto

lemma length_first_seen [simp]: "length (first_seen seen vs) = length vs"
  by (induction vs arbitrary: seen) auto

lemma first_seen_selects_distinct:
  "distinct (select_rows (first_seen seen vs) vs)
   \<and> set (select_rows (first_seen seen vs) vs) \<inter> set seen = {}"
proof (induction vs arbitrary: seen)
  case Nil
  then show ?case by simp
next
  case (Cons v vs)
  show ?case
  proof (cases "v \<in> set seen")
    case True
    with Cons [of "v # seen"] show ?thesis by auto
  next
    case False
    with Cons [of "v # seen"] show ?thesis by auto
  qed
qed

lemma set_first_seen: "set (select_rows (first_seen seen vs) vs) = set vs - set seen"
  by (induction vs arbitrary: seen) auto

lemma get_column_Some:
  "get_column df col = Some c \<Longrightarrow> c \<in> set (columns df) \<and> name c = col"
  by (auto simp: get_column_def find_Some_iff)

lemma get_column_member:
  assumes "distinct (map name (columns df))" "c \<in> set (columns df)"
  shows "get_column df (name c) = Some c"
proof (cases "get_column df (name c)")
  case None
  with assms(2) show ?thesis by (auto simp: get_column_def find_None_iff)
next
  case (Some c')
  then have c': "c' \<in> set (columns df)" "name c' = name c" by (auto dest: get_column_Some)
  from assms(1) have "inj_on name (set (columns df))" by (simp add: distinct_map)
  with c' assms(2) have "c' = c" by (auto dest: inj_onD)
  with Some show ?thesis by simp
qed

lemma find_map_name:
  assumes "\<And>c. name (g c) = name c"
  shows "find (\<lambda>c. name c = col) (map g cs) = map_option g (find (\<lambda>c. name c = col) cs)"
  by (induction cs) (simp_all add: assms)

lemma get_column_map_columns:
  assumes "\<And>c. name (g c) = name c"
  shows "get_column (map_columns g df) col = map_option g (get_column df col)"
  unfolding get_column_def by (simp add: find_map_name [OF assms])

lemma keep_rows_simps [simp]:
  "name (keep_rows keep c) = name c" "dtype (keep_rows keep c) = dtype c"
  "cells (keep_rows keep c) = select_rows keep (cells c)"
  by (simp_all add: keep_rows_def)

lemma drop_duplicates_Inr:
  assumes "drop_duplicates df = Inr d1"
  obtains code where "get_column df ''code'' = Some code" "\<not> list_ex is_list (cells code)"
    "d1 = map_columns (keep_rows (first_seen [] (cells code)))
            (df\<lparr>index := select_rows (first_seen [] (cells code)) (index df)\<rparr>)"
  using assms
  by (auto simp: drop_duplicates_def Let_def map_columns_def keep_rows_def [abs_def]
      split: option.splits if_splits)

subsection \<open>Rules on one column\<close>

lemma missing_count_0: "missing_count c = 0 \<longleftrightarrow> \<not> list_ex is_null (cells c)"
  by (simp add: missing_count_def list_ex_iff filter_empty_conv)

lemma fill_text_column_cells: "fill_text_column c = c\<lparr>cells := map fill_cell (cells c)\<rparr>"
proof (cases "missing_count c > 0")
  case True
  then show ?thesis by (simp add: fill_text_column_def fillna_def fill_cell_def [abs_def])
next
  case False
  then have "\<forall>x\<in>set (cells c). \<not> is_null x"
    using missing_count_0 [of c] by (simp add: list_ex_iff)
  then have "map fill_cell (cells c) = cells c"
    by (intro map_idI) (simp add: fill_cell_def)
  with False show ?thesis by (simp add: fill_text_column_def)
qed

lemma fillna_no_null: "\<not> is_null v \<Longrightarrow> \<not> list_ex is_null (cells (fillna v c))"
  by (auto simp: fillna_def list_ex_iff)

lemma fill_rule_no_null:
  assumes "dtype c = Object \<or> dtype c = Numeric"
  shows "\<not> list_ex is_null (cells (fill_rule c))"
proof (cases "missing_count c > 0")
  case True
  with assms show ?thesis
    by (auto simp: fill_rule_def fill_text_column_def fill_numeric_column_def fillna_no_null
        split: option.splits)
next
  case False
  then have "\<not> list_ex is_null (cells c)" using missing_count_0 [of c] by simp
  with False assms show ?thesis
    by (auto simp: fill_rule_def fill_text_column_def fill_numeric_column_def)
qed

lemma fill_rule_simps [simp]: "name (fill_rule c) = name c" "dtype (fill_rule c) = dtype c"
  by (simp_all add: fill_rule_def)

lemma astype_str_no_null: "\<not> list_ex is_null (cells (astype_str lib c))"
  by (simp add: astype_str_def list_ex_iff)

lemma str_map_is_str: "is_str x \<Longrightarrow> is_str (str_map f x)"
  by (cases x) simp_all

lemma normalize_column_is_str: "list_all is_str (cells (normalize_column lib c))"
  by (simp add: normalize_column_def astype_str_def Let_def list_all_iff)

lemma is_str_not_null: "list_all is_str xs \<Longrightarrow> \<not> list_ex is_null xs"
proof -
  have "is_str x \<Longrightarrow> \<not> is_null x" for x by (cases x) simp_all
  then show "list_all is_str xs \<Longrightarrow> \<not> list_ex is_null xs"
    by (auto simp: list_all_iff list_ex_iff)
qed

lemma flatten_column_is_str: "list_all is_str (cells (flatten_column lib c))"
proof -
  have "is_str (join_or_str lib x)" for x by (cases x) simp_all
  then show ?thesis by (simp add: flatten_column_def list_all_iff)
qed

lemma set_where_no_null:
  "\<not> is_null v \<Longrightarrow> \<not> list_ex is_null (cells c) \<Longrightarrow> \<not> list_ex is_null (cells (set_where p v c))"
  by (auto simp: set_where_def list_ex_iff)

lemma clip_outliers_no_null:
  assumes "\<not> list_ex is_null (cells c)"
  shows "\<not> list_ex is_null (cells (clip_outliers c))"
  using assms
  by (auto simp: clip_outliers_def Let_def set_where_no_null split: option.splits)

lemma clean_numeric_column_no_null:
  assumes "dtype c = Numeric" "\<not> list_ex is_null (cells c)"
  shows "\<not> list_ex is_null (cells (clean_numeric_column lib c))"
proof -
  have "\<not> list_ex is_null (cells (set_where is_negative (Num 0) c))"
    using assms(2) by (intro set_where_no_null) simp_all
  with assms show ?thesis
    by (simp add: clean_numeric_column_def Let_def to_numeric_def clip_outliers_no_null)
qed

lemma rule_names [simp]:
  "name (normalize_rule lib c) = name c" "name (code_rule lib c) = name c"
  "name (nutriscore_rule c) = name c" "name (numeric_rule lib c) = name c"
  "name (list_rule lib c) = name c"
  by (simp_all add: normalize_rule_def code_rule_def nutriscore_rule_def numeric_rule_def list_rule_def)

lemma later_rules_name [simp]: "name (later_rules lib c) = name c"
  by (simp add: later_rules_def)

lemma column_rules_name [simp]: "name (column_rules lib c) = name c"
  by (simp add: column_rules_def)

lemma special_names:
  "''energy_100g'' \<notin> set text_cols_to_normalize" "''fat_100g'' \<notin> set text_cols_to_normalize"
  "''sugars_100g'' \<notin> set text_cols_to_normalize" "''salt_100g'' \<notin> set text_cols_to_normalize"
  "''proteins_100g'' \<notin> set text_cols_to_normalize"
  by (simp_all add: text_cols_to_normalize_def)

lemma numeric_not_text: "col \<in> set numeric_cols_to_clean \<Longrightarrow> col \<notin> set text_cols_to_normalize"
  by (auto simp: numeric_cols_to_clean_def text_cols_to_normalize_def)

lemma numeric_not_code: "col \<in> set numeric_cols_to_clean \<Longrightarrow> col \<noteq> ''code''"
  by (auto simp: numeric_cols_to_clean_def)

lemma numeric_not_nutriscore: "col \<in> set numeric_cols_to_clean \<Longrightarrow> col \<noteq> ''nutriscore_grade''"
  by (auto simp: numeric_cols_to_clean_def)

lemma later_rules_no_null:
  assumes nn: "\<not> list_ex is_null (cells c)"
    and nutri: "name c \<noteq> ''nutriscore_grade''"
    and num: "name c \<in> set numeric_cols_to_clean \<longrightarrow> dtype c = Numeric"
  shows "\<not> list_ex is_null (cells (later_rules lib c))"
proof -
  let ?c4 = "normalize_rule lib c"
  let ?c5 = "code_rule lib ?c4"
  let ?c6 = "nutriscore_rule ?c5"
  let ?c7 = "numeric_rule lib ?c6"
  have n4: "\<not> list_ex is_null (cells ?c4)"
    using nn by (simp add: normalize_rule_def is_str_not_null [OF normalize_column_is_str])
  have n5: "\<not> list_ex is_null (cells ?c5)"
    using n4 by (simp add: code_rule_def astype_str_no_null)
  have c6: "?c6 = ?c5" using nutri by (simp add: nutriscore_rule_def)
  have n7: "\<not> list_ex is_null (cells ?c7)"
  proof (cases "name c \<in> set numeric_cols_to_clean")
    case True
    then have "?c5 = c"
      by (simp add: normalize_rule_def code_rule_def numeric_not_text numeric_not_code)
    with True num nn c6 show ?thesis
      by (simp add: numeric_rule_def clean_numeric_column_no_null)
  next
    case False
    with n5 c6 show ?thesis by (simp add: numeric_rule_def)
  qed
  have "\<not> list_ex is_null (cells (list_rule lib ?c7))"
    using n7 by (simp add: list_rule_def is_str_not_null [OF flatten_column_is_str])
  then show ?thesis by (simp add: later_rules_def)
qed

lemma column_rules_no_null:
  assumes "dtype c = Object \<or> dtype c = Numeric"
    and "name c \<noteq> ''nutriscore_grade''"
    and "name c \<in> set numeric_cols_to_clean \<longrightarrow> dtype c = Numeric"
  shows "\<not> list_ex is_null (cells (column_rules lib c))"
  unfolding column_rules_def
  using assms by (intro later_rules_no_null fill_rule_no_null) simp_all

lemma later_rules_code:
  "name c = ''code'' \<Longrightarrow> later_rules lib c = astype_str lib c"
  by (simp add: later_rules_def normalize_rule_def code_rule_def nutriscore_rule_def
      numeric_rule_def list_rule_def text_cols_to_normalize_def numeric_cols_to_clean_def list_cols_def)

lemma later_rules_other:
  "\<not> named_by_later_rule (name c) \<Longrightarrow> later_rules lib c = c"
  by (simp add: later_rules_def normalize_rule_def code_rule_def nutriscore_rule_def
      numeric_rule_def list_rule_def named_by_later_rule_def)

lemma astype_str_cells_is_str:
  assumes "list_all is_str xs"
  shows "map (\<lambda>x. Str (str_cell lib x)) xs = xs"
proof (rule map_idI)
  fix x assume "x \<in> set xs"
  with assms have "is_str x" by (simp add: list_all_iff)
  then show "Str (str_cell lib x) = x" by (cases x) simp_all
qed

text \<open>
  The fill keeps distinct codes distinct, unless the sentinel is itself a code or both
  kinds of null occur.
\<close>

lemma fill_cell_distinct:
  assumes d: "distinct xs"
    and s: "list_ex is_null xs \<longrightarrow> Str sentinel \<notin> set xs"
    and k: "\<not> (PyNone \<in> set xs \<and> NaN \<in> set xs)"
  shows "distinct (map fill_cell xs)"
proof -
  have "inj_on fill_cell (set xs)"
  proof (rule inj_onI)
    fix x y assume xy: "x \<in> set xs" "y \<in> set xs" "fill_cell x = fill_cell y"
    show "x = y"
    proof (cases "is_null x"; cases "is_null y")
      assume "is_null x" "is_null y"
      then have "(x = PyNone \<or> x = NaN) \<and> (y = PyNone \<or> y = NaN)"
        by (cases x; cases y) simp_all
      with xy(1,2) k show ?thesis by auto
    next
      assume a: "is_null x" "\<not> is_null y"
      with xy have "y = Str sentinel" by (simp add: fill_cell_def)
      moreover from a xy have "list_ex is_null xs" by (auto simp: list_ex_iff)
      ultimately show ?thesis using s xy by simp
    next
      assume a: "\<not> is_null x" "is_null y"
      with xy have "x = Str sentinel" by (simp add: fill_cell_def)
      moreover from a xy have "list_ex is_null xs" by (auto simp: list_ex_iff)
      ultimately show ?thesis using s xy by simp
    next
      assume "\<not> is_null x" "\<not> is_null y"
      with xy show ?thesis by (simp add: fill_cell_def)
    qed
  qed
  with d show ?thesis by (simp add: distinct_map)
qed

lemma num_in_numbers: "Num a \<in> set xs \<Longrightarrow> a \<in> set (numbers xs)"
  by (induction xs rule: numbers.induct) auto

lemma numbers_in: "a \<in> set (numbers xs) \<Longrightarrow> Num a \<in> set xs"
  by (induction xs rule: numbers.induct) auto

lemma is_num_not_null: "list_all is_num xs \<Longrightarrow> \<not> list_ex is_null xs"
proof -
  have "is_num x \<Longrightarrow> \<not> is_null x" for x by (cases x) simp_all
  then show "list_all is_num xs \<Longrightarrow> \<not> list_ex is_null xs"
    by (auto simp: list_all_iff list_ex_iff)
qed

text \<open>Distinct numbers have distinct texts where \<open>str\<close> is injective on them.\<close>

lemma str_cell_distinct:
  assumes d: "distinct xs" and n: "list_all is_num xs"
    and i: "inj_on (str_of_num lib) (set (numbers xs))"
  shows "distinct (map (\<lambda>x. Str (str_cell lib x)) xs)"
proof -
  have "inj_on (\<lambda>x. Str (str_cell lib x)) (set xs)"
  proof (rule inj_onI)
    fix x y assume xy: "x \<in> set xs" "y \<in> set xs" "Str (str_cell lib x) = Str (str_cell lib y)"
    from n xy(1,2) have "is_num x" "is_num y" by (simp_all add: list_all_iff)
    then obtain a b where ab: "x = Num a" "y = Num b" by (cases x; cases y) simp_all
    with xy have "a \<in> set (numbers xs)" "b \<in> set (numbers xs)" "str_of_num lib a = str_of_num lib b"
      by (simp_all add: num_in_numbers)
    with i have "a = b" by (auto dest: inj_onD)
    with ab show "x = y" by simp
  qed
  with d show ?thesis by (simp add: distinct_map)
qed

lemma fill_cell_is_str:
  assumes "list_all (\<lambda>x. is_str x \<or> is_null x) xs"
  shows "list_all is_str (map fill_cell xs)"
proof -
  have "is_str (fill_cell x)" if "is_str x \<or> is_null x" for x
    using that by (cases x) (simp_all add: fill_cell_def)
  with assms show ?thesis by (simp add: list_all_iff)
qed

subsection \<open>The cleaned table\<close>

lemma get_column_index_update [simp]: "get_column (df\<lparr>index := i\<rparr>) col = get_column df col"
  by (simp add: get_column_def)

lemma clean_dataframe_Inr:
  assumes "distinct (map name (columns df))" "\<not> df_empty df" "clean_dataframe lib df = Inr out"
  obtains code where "get_column df ''code'' = Some code" "\<not> list_ex is_list (cells code)"
    "out = map_columns (\<lambda>c. column_rules lib (keep_rows (first_seen [] (cells code)) c))
             (df\<lparr>index := select_rows (first_seen [] (cells code)) (index df)\<rparr>)"
proof -
  from assms(2,3) obtain d1 where d1: "drop_duplicates df = Inr d1" and r: "clean_rules lib d1 = Inr out"
    by (auto simp: clean_dataframe_def split: sum.splits)
  from drop_duplicates_Inr [OF d1] obtain code where code:
    "get_column df ''code'' = Some code" "\<not> list_ex is_list (cells code)"
    "d1 = map_columns (keep_rows (first_seen [] (cells code)))
            (df\<lparr>index := select_rows (first_seen [] (cells code)) (index df)\<rparr>)"
    by blast
  have "map name (columns d1) = map name (columns df)"
    unfolding code(3) by (simp add: comp_def)
  with assms(1) have "distinct (map name (columns d1))" by simp
  from clean_rules_map [OF this r] have "out = map_columns (column_rules lib) d1" .
  then have "out = map_columns (\<lambda>c. column_rules lib (keep_rows (first_seen [] (cells code)) c))
             (df\<lparr>index := select_rows (first_seen [] (cells code)) (index df)\<rparr>)"
    unfolding code(3) map_columns_comp .
  with code(1,2) show ?thesis by (rule that)
qed

lemma clean_dataframe_column:
  assumes "distinct (map name (columns df))" "\<not> df_empty df" "clean_dataframe lib df = Inr out"
    and "get_column df ''code'' = Some code"
  shows "get_column out col
    = map_option (\<lambda>c. column_rules lib (keep_rows (first_seen [] (cells code)) c)) (get_column df col)"
proof -
  from clean_dataframe_Inr [OF assms(1-3)] obtain code' where c:
    "get_column df ''code'' = Some code'"
    "out = map_columns (\<lambda>c. column_rules lib (keep_rows (first_seen [] (cells code')) c))
             (df\<lparr>index := select_rows (first_seen [] (cells code')) (index df)\<rparr>)"
    by blast
  with assms(4) have "code' = code" by simp
  with c(2) show ?thesis by (simp add: get_column_map_columns)
qed

lemma well_formed_names: "well_formed df \<Longrightarrow> distinct (map name (columns df))"
  by (simp add: well_formed_def)

lemma well_formed_empty_cells:
  assumes "well_formed df" "df_empty df" "c \<in> set (columns df)"
  shows "cells c = []"
proof -
  from assms(3) have "columns df \<noteq> []" by auto
  with assms(2) have "index df = []" by (simp add: df_empty_def)
  with assms(1,3) show ?thesis by (auto simp: well_formed_def list_all_iff)
qed

text \<open>
  C2, amended. After \<open>clean_dataframe\<close> (on a table with distinct column names and
  columns as long as the index):
  \<^item> when \<open>code\<close> is a text column, it has no duplicate value exactly if no two
    different codes have the same text once nulls are filled; so it has none when it holds
    strings and nulls only, not both \<open>None\<close> and \<open>NaN\<close>, and, if it has a null, no string
    equal to the sentinel;
  \<^item> the column \<open>code\<close> has no duplicate value when it is a numeric column without nulls
    (different numbers having different texts);
  \<^item> no column that had a fill rule (text or numeric) has a null, except
    \<open>nutriscore_grade\<close> and except a nutritional column that was a text column.
\<close>

theorem clean_dataframe_no_duplicates_no_nulls:
  assumes wf: "well_formed df"
    and out: "clean_dataframe lib df = Inr out"
  shows "(\<forall>code. get_column df ''code'' = Some code \<and> dtype code = Object
              \<and> list_all (\<lambda>x. is_str x \<or> is_null x) (cells code)
              \<and> (list_ex is_null (cells code) \<longrightarrow> Str sentinel \<notin> set (cells code))
              \<and> \<not> (PyNone \<in> set (cells code) \<and> NaN \<in> set (cells code))
            \<longrightarrow> (\<exists>code'. get_column out ''code'' = Some code' \<and> distinct (cells code')))
       \<and> (\<forall>code. get_column df ''code'' = Some code \<and> dtype code = Object
            \<longrightarrow> (\<exists>code'. get_column out ''code'' = Some code'
                   \<and> (distinct (cells code')
                        \<longleftrightarrow> inj_on (\<lambda>x. str_cell lib (fill_cell x)) (set (cells code)))))
       \<and> (\<forall>code. get_column df ''code'' = Some code \<and> dtype code = Numeric
              \<and> list_all is_num (cells code)
              \<and> inj_on (str_of_num lib) (set (numbers (cells code)))
            \<longrightarrow> (\<exists>code'. get_column out ''code'' = Some code' \<and> distinct (cells code')))
       \<and> (\<forall>c\<in>set (columns df).
             (dtype c = Object \<or> dtype c = Numeric) \<and> name c \<noteq> ''nutriscore_grade''
              \<and> (name c \<in> set numeric_cols_to_clean \<longrightarrow> dtype c = Numeric)
            \<longrightarrow> (\<exists>c'. get_column out (name c) = Some c' \<and> \<not> list_ex is_null (cells c')))"
proof (cases "df_empty df")
  case True
  with out have eq: "out = df" by (simp add: clean_dataframe_def)
  have cells: "cells c = []" if "c \<in> set (columns df)" for c
    using well_formed_empty_cells [OF wf True that] .
  have 1: "\<exists>code'. get_column out ''code'' = Some code' \<and> distinct (cells code')"
    if "get_column df ''code'' = Some code" for code
    using that cells [of code] get_column_Some [OF that] eq by simp
  have 2: "\<exists>c'. get_column out (name c) = Some c' \<and> \<not> list_ex is_null (cells c')"
    if "c \<in> set (columns df)" for c
    using get_column_member [OF well_formed_names [OF wf] that] cells [OF that] eq by simp
  have 3: "\<exists>code'. get_column out ''code'' = Some code'
      \<and> (distinct (cells code') \<longleftrightarrow> inj_on (\<lambda>x. str_cell lib (fill_cell x)) (set (cells code)))"
    if "get_column df ''code'' = Some code" for code
    using that cells [of code] get_column_Some [OF that] eq by simp
  from 1 2 3 show ?thesis by blast
next
  case False
  note names = well_formed_names [OF wf]
  have 1: "\<exists>code'. get_column out ''code'' = Some code' \<and> distinct (cells code')"
    if code: "get_column df ''code'' = Some code" and ob: "dtype code = Object"
      and strs: "list_all (\<lambda>x. is_str x \<or> is_null x) (cells code)"
      and sen: "list_ex is_null (cells code) \<longrightarrow> Str sentinel \<notin> set (cells code)"
      and kinds: "\<not> (PyNone \<in> set (cells code) \<and> NaN \<in> set (cells code))" for code
  proof -
    let ?kept = "select_rows (first_seen [] (cells code)) (cells code)"
    let ?c1 = "keep_rows (first_seen [] (cells code)) code"
    have nm: "name code = ''code''" using get_column_Some [OF code] by simp
    have sub: "set ?kept \<subseteq> set (cells code)" by (rule set_select_rows)
    have d: "distinct ?kept" using first_seen_selects_distinct [of "[]" "cells code"] by simp
    have sen': "list_ex is_null ?kept \<longrightarrow> Str sentinel \<notin> set ?kept"
      using sen sub by (auto simp: list_ex_iff)
    have kinds': "\<not> (PyNone \<in> set ?kept \<and> NaN \<in> set ?kept)"
      using kinds sub by auto
    have strs': "list_all (\<lambda>x. is_str x \<or> is_null x) ?kept"
      using strs sub by (auto simp: list_all_iff)
    have f: "fill_rule ?c1 = ?c1\<lparr>cells := map fill_cell ?kept\<rparr>"
      using ob by (simp add: fill_rule_def fill_text_column_cells)
    have "cells (column_rules lib ?c1) = map (\<lambda>x. Str (str_cell lib x)) (map fill_cell ?kept)"
      unfolding column_rules_def f using nm by (simp add: later_rules_code astype_str_def)
    also have "\<dots> = map fill_cell ?kept"
      by (rule astype_str_cells_is_str) (rule fill_cell_is_str [OF strs'])
    finally have "distinct (cells (column_rules lib ?c1))"
      using fill_cell_distinct [OF d sen' kinds'] by simp
    moreover have "get_column out ''code'' = Some (column_rules lib ?c1)"
      using clean_dataframe_column [OF names False out code, of "''code''"] code by simp
    ultimately show ?thesis by blast
  qed
  have exactly: "\<exists>code'. get_column out ''code'' = Some code'
      \<and> (distinct (cells code') \<longleftrightarrow> inj_on (\<lambda>x. str_cell lib (fill_cell x)) (set (cells code)))"
    if code: "get_column df ''code'' = Some code" and ob: "dtype code = Object" for code
  proof -
    let ?kept = "select_rows (first_seen [] (cells code)) (cells code)"
    let ?c1 = "keep_rows (first_seen [] (cells code)) code"
    have nm: "name code = ''code''" using get_column_Some [OF code] by simp
    have kept: "set ?kept = set (cells code)" by (simp add: set_first_seen)
    have d: "distinct ?kept" using first_seen_selects_distinct [of "[]" "cells code"] by simp
    have f: "fill_rule ?c1 = ?c1\<lparr>cells := map fill_cell ?kept\<rparr>"
      using ob by (simp add: fill_rule_def fill_text_column_cells)
    have "cells (column_rules lib ?c1) = map (\<lambda>x. Str (str_cell lib (fill_cell x))) ?kept"
      unfolding column_rules_def f using nm by (simp add: later_rules_code astype_str_def comp_def)
    then have "distinct (cells (column_rules lib ?c1))
        \<longleftrightarrow> inj_on (\<lambda>x. Str (str_cell lib (fill_cell x))) (set (cells code))"
      using d kept by (simp add: distinct_map)
    also have "\<dots> \<longleftrightarrow> inj_on (\<lambda>x. str_cell lib (fill_cell x)) (set (cells code))"
      by (simp add: inj_on_def)
    finally have "distinct (cells (column_rules lib ?c1))
        \<longleftrightarrow> inj_on (\<lambda>x. str_cell lib (fill_cell x)) (set (cells code))" .
    moreover have "get_column out ''code'' = Some (column_rules lib ?c1)"
      using clean_dataframe_column [OF names False out code, of "''code''"] code by simp
    ultimately show ?thesis by blast
  qed
  have numeric: "\<exists>code'. get_column out ''code'' = Some code' \<and> distinct (cells code')"
    if code: "get_column df ''code'' = Some code" and nu: "dtype code = Numeric"
      and nums: "list_all is_num (cells code)"
      and inj: "inj_on (str_of_num lib) (set (numbers (cells code)))" for code
  proof -
    let ?kept = "select_rows (first_seen [] (cells code)) (cells code)"
    let ?c1 = "keep_rows (first_seen [] (cells code)) code"
    have nm: "name code = ''code''" using get_column_Some [OF code] by simp
    have sub: "set ?kept \<subseteq> set (cells code)" by (rule set_select_rows)
    have d: "distinct ?kept" using first_seen_selects_distinct [of "[]" "cells code"] by simp
    have nums': "list_all is_num ?kept"
      using nums sub by (auto simp: list_all_iff)
    have "set (numbers ?kept) \<subseteq> set (numbers (cells code))"
    proof
      fix a assume "a \<in> set (numbers ?kept)"
      then have "Num a \<in> set ?kept" by (rule numbers_in)
      with sub show "a \<in> set (numbers (cells code))" by (auto intro: num_in_numbers)
    qed
    with inj have inj': "inj_on (str_of_num lib) (set (numbers ?kept))"
      by (rule inj_on_subset)
    have "missing_count ?c1 = 0"
      using is_num_not_null [OF nums'] by (simp add: missing_count_0)
    then have f: "fill_rule ?c1 = ?c1"
      using nu by (simp add: fill_rule_def fill_numeric_column_def)
    have "cells (column_rules lib ?c1) = map (\<lambda>x. Str (str_cell lib x)) ?kept"
      unfolding column_rules_def f using nm by (simp add: later_rules_code astype_str_def)
    then have "distinct (cells (column_rules lib ?c1))"
      using str_cell_distinct [OF d nums' inj'] by simp
    moreover have "get_column out ''code'' = Some (column_rules lib ?c1)"
      using clean_dataframe_column [OF names False out code, of "''code''"] code by simp
    ultimately show ?thesis by blast
  qed
  have 2: "\<exists>c'. get_column out (name c) = Some c' \<and> \<not> list_ex is_null (cells c')"
    if c: "c \<in> set (columns df)" and ty: "dtype c = Object \<or> dtype c = Numeric"
      and nu: "name c \<noteq> ''nutriscore_grade''"
      and num: "name c \<in> set numeric_cols_to_clean \<longrightarrow> dtype c = Numeric" for c
  proof -
    from clean_dataframe_Inr [OF names False out] obtain code where
      code: "get_column df ''code'' = Some code" by blast
    let ?c1 = "keep_rows (first_seen [] (cells code)) c"
    have "get_column out (name c) = Some (column_rules lib ?c1)"
      using clean_dataframe_column [OF names False out code, of "name c"]
        get_column_member [OF names c] by simp
    moreover have "\<not> list_ex is_null (cells (column_rules lib ?c1))"
      using ty nu num by (intro column_rules_no_null) simp_all
    ultimately show ?thesis by blast
  qed
  from 1 exactly numeric 2 show ?thesis by blast
qed

subsection \<open>Runs on the concrete tables\<close>

lemmas table_defs = df_empty_def drop_duplicates_def get_column_def
  fill_text_def fill_numeric_def select_dtypes_text_def select_dtypes_number_def
  assign_column_def fill_text_column_def fill_numeric_column_def missing_count_def fillna_def
  normalize_text_def text_cols_to_normalize_def has_column_def normalize_column_def astype_str_def
  code_to_str_def nutriscore_to_category_def clean_numeric_def numeric_cols_to_clean_def
  clean_numeric_column_def to_numeric_def set_where_def clip_outliers_def flatten_lists_def
  list_cols_def flatten_column_def clean_rules_def clean_dataframe_def Let_def

lemma std_single: "std [x] = None"
  by (simp add: std_def)

lemma read_digits_5: "read_digits ''5'' = Some 5"
  by (simp add: read_digits_def is_digit_def)

lemma read_digits_abc: "read_digits ''abc'' = None"
  by (simp add: read_digits_def is_digit_def)

lemma read_digits_sentinel: "read_digits sentinel = None"
  by (simp add: read_digits_def is_digit_def sentinel_def)

lemma names_table_run: "clean_dataframe lib names_table = Inr names_table_clean"
  by (simp add: names_table_def names_table_clean_def table_defs)

lemma duplicates_run: "clean_dataframe lib duplicates_table = Inr duplicates_table_clean"
  by (simp add: duplicates_table_def duplicates_table_clean_def table_defs select_rows_def)

lemma write_whole_123: "write_whole 123 = ''123''"
  by (simp add: write_whole_def digit_char_def)

lemma write_whole_456: "write_whole 456 = ''456''"
  by (simp add: write_whole_def digit_char_def)

lemma numeric_codes_run: "clean_dataframe example_lib numeric_codes_table = Inr numeric_codes_clean"
  by (simp add: numeric_codes_table_def numeric_codes_clean_def table_defs select_rows_def
      example_lib_def write_whole_123 write_whole_456)

lemma sentinel_code_run: "clean_dataframe example_lib sentinel_code_table = Inr sentinel_code_clean"
  by (simp add: sentinel_code_table_def sentinel_code_clean_def table_defs select_rows_def
      example_lib_def read_digits_sentinel read_digits_5 std_single)

lemma text_nulls_run: "clean_dataframe example_lib text_nulls_table = Inr text_nulls_clean"
  by (simp add: text_nulls_table_def text_nulls_clean_def table_defs example_lib_def
      read_digits_sentinel read_digits_5 std_single)

lemma energy_text_run_once: "clean_dataframe example_lib energy_text_table = Inr energy_text_once"
  by (simp add: energy_text_table_def energy_text_once_def table_defs example_lib_def
      read_digits_abc read_digits_5 std_single)

lemma energy_text_run_twice: "clean_dataframe example_lib energy_text_once = Inr energy_text_twice"
  by (simp add: energy_text_once_def energy_text_twice_def table_defs example_lib_def
      median_def std_def mean_def)

lemma names_table_well_formed: "well_formed names_table"
  by (simp add: well_formed_def names_table_def)

lemma duplicates_table_well_formed: "well_formed duplicates_table"
  by (simp add: well_formed_def duplicates_table_def)

lemma numeric_codes_table_well_formed: "well_formed numeric_codes_table"
  by (simp add: well_formed_def numeric_codes_table_def)

theorem clean_dataframe_no_duplicates_no_nulls_witness:
  "well_formed duplicates_table
   \<and> clean_dataframe example_lib duplicates_table = Inr duplicates_table_clean
   \<and> (\<exists>code'. get_column duplicates_table_clean ''code'' = Some code' \<and> distinct (cells code'))
   \<and> (\<exists>c'. get_column duplicates_table_clean ''name'' = Some c' \<and> \<not> list_ex is_null (cells c'))
   \<and> well_formed numeric_codes_table
   \<and> clean_dataframe example_lib numeric_codes_table = Inr numeric_codes_clean
   \<and> (\<exists>code'. get_column numeric_codes_clean ''code'' = Some code' \<and> distinct (cells code'))"
proof -
  note inst = clean_dataframe_no_duplicates_no_nulls
    [OF duplicates_table_well_formed duplicates_run [of example_lib]]
  let ?code = "\<lparr>name = ''code'', dtype = Object, cells = [Str ''123'', Str ''123'', Str ''456'']\<rparr>"
  let ?name = "\<lparr>name = ''name'', dtype = Object, cells = [Str ''A'', PyNone, PyNone]\<rparr>"
  have "get_column duplicates_table ''code'' = Some ?code \<and> dtype ?code = Object
      \<and> list_all (\<lambda>x. is_str x \<or> is_null x) (cells ?code)
      \<and> (list_ex is_null (cells ?code) \<longrightarrow> Str sentinel \<notin> set (cells ?code))
      \<and> \<not> (PyNone \<in> set (cells ?code) \<and> NaN \<in> set (cells ?code))"
    by (simp add: duplicates_table_def get_column_def)
  with inst have 1: "\<exists>code'. get_column duplicates_table_clean ''code'' = Some code' \<and> distinct (cells code')"
    by blast
  have "?name \<in> set (columns duplicates_table)
      \<and> (dtype ?name = Object \<or> dtype ?name = Numeric) \<and> name ?name \<noteq> ''nutriscore_grade''
      \<and> (name ?name \<in> set numeric_cols_to_clean \<longrightarrow> dtype ?name = Numeric)"
    by (simp add: duplicates_table_def numeric_cols_to_clean_def)
  with inst have "\<exists>c'. get_column duplicates_table_clean (name ?name) = Some c' \<and> \<not> list_ex is_null (cells c')"
    by blast
  then have 2: "\<exists>c'. get_column duplicates_table_clean ''name'' = Some c' \<and> \<not> list_ex is_null (cells c')"
    by simp
  note inst' = clean_dataframe_no_duplicates_no_nulls
    [OF numeric_codes_table_well_formed numeric_codes_run]
  let ?num = "\<lparr>name = ''code'', dtype = Numeric, cells = [Num 123, Num 456]\<rparr>"
  have "get_column numeric_codes_table ''code'' = Some ?num \<and> dtype ?num = Numeric
      \<and> list_all is_num (cells ?num)
      \<and> inj_on (str_of_num example_lib) (set (numbers (cells ?num)))"
    by (simp add: numeric_codes_table_def get_column_def example_lib_def
        write_whole_123 write_whole_456)
  with inst' have 3: "\<exists>code'. get_column numeric_codes_clean ''code'' = Some code' \<and> distinct (cells code')"
    by blast
  from duplicates_table_well_formed duplicates_run numeric_codes_table_well_formed
    numeric_codes_run 1 2 3
  show ?thesis by blast
qed

text \<open>
  C2 as stated fails, in both parts. The codes \<open>None\<close> and \<open>"Non renseign\'e"\<close> are
  different values, so both rows are kept; the text fill then writes the sentinel for
  the missing code, and the cleaned column \<open>code\<close> holds the same value twice.
  \<open>energy_100g\<close> is a text column with a null, so the text fill applies to it; the
  coercion to numbers of rule 5 then makes the filled sentinel a null again, and the
  cleaned column holds a null.
\<close>

theorem clean_dataframe_duplicate_code_and_null:
  "clean_dataframe example_lib sentinel_code_table = Inr sentinel_code_clean
   \<and> get_column sentinel_code_table ''code''
       = Some \<lparr>name = ''code'', dtype = Object, cells = [PyNone, Str sentinel]\<rparr>
   \<and> get_column sentinel_code_clean ''code''
       = Some \<lparr>name = ''code'', dtype = Object, cells = [Str sentinel, Str sentinel]\<rparr>
   \<and> get_column sentinel_code_table ''energy_100g''
       = Some \<lparr>name = ''energy_100g'', dtype = Object, cells = [PyNone, Str ''5'']\<rparr>
   \<and> get_column sentinel_code_clean ''energy_100g''
       = Some \<lparr>name = ''energy_100g'', dtype = Numeric, cells = [NaN, Num 5]\<rparr>"
  by (simp add: sentinel_code_run)
    (simp add: sentinel_code_table_def sentinel_code_clean_def get_column_def)

text \<open>
  The sentinel of the text fill starts with a capital letter; the category that stands
  for it does not. A filled \<open>nutriscore_grade\<close> is therefore no category.
\<close>

lemma nutriscore_sentinel_lost: "categorise nutriscore_categories (Str sentinel) = NaN"
  by (simp add: nutriscore_categories_def sentinel_def)

text \<open>
  C7. A table that is not empty and has no column \<open>code\<close> makes \<open>clean_dataframe\<close> raise
  \<open>KeyError\<close>: the removal of duplicates names the column without the test for its
  presence that every later rule has.
\<close>

theorem clean_dataframe_missing_code_raises:
  "\<not> df_empty no_code_table \<and> clean_dataframe lib no_code_table = Inl KeyError"
  by (simp add: no_code_table_def table_defs)

lemma clean_dataframe_empty: "df_empty df \<Longrightarrow> clean_dataframe lib df = Inr df"
  by (simp add: clean_dataframe_def)

subsection \<open>Table construction\<close>

text \<open>
  C10. \<open>raw_to_dataframe\<close> raises \<open>ValueError\<close> on the empty list of records, and on
  every other list it returns a table with one row per record.
\<close>

theorem raw_to_dataframe_rows:
  "raw_to_dataframe [] = Inl ValueError
   \<and> (raw_data \<noteq> [] \<longrightarrow>
        (\<exists>df. raw_to_dataframe raw_data = Inr df
           \<and> length (index df) = length raw_data
           \<and> list_all (\<lambda>c. length (cells c) = length raw_data) (columns df)))"
  by (auto simp: raw_to_dataframe_def DataFrame_def list_all_iff Let_def)

theorem raw_to_dataframe_rows_witness:
  "two_records \<noteq> []
   \<and> (\<exists>df. raw_to_dataframe two_records = Inr df
          \<and> length (index df) = 2
          \<and> list_all (\<lambda>c. length (cells c) = 2) (columns df))"
proof -
  have ne: "two_records \<noteq> []" and len: "length two_records = 2"
    by (simp_all add: two_records_def)
  from raw_to_dataframe_rows [of two_records] ne len show ?thesis by simp
qed

lemma later_rules_tags:
  assumes "name c = ''packaging_tags'' \<or> name c = ''labels_tags'' \<or> name c = ''countries_tags''"
  shows "later_rules lib c = flatten_column lib c"
  using assms
  by (auto simp: later_rules_def normalize_rule_def code_rule_def nutriscore_rule_def
      numeric_rule_def list_rule_def text_cols_to_normalize_def numeric_cols_to_clean_def list_cols_def)

lemma normalize_column_cells:
  "normalize_column lib c
     = c\<lparr>dtype := Object,
         cells := map (\<lambda>x. Str (str_lower lib (str_strip lib (str_cell lib x)))) (cells c)\<rparr>"
  by (simp add: normalize_column_def astype_str_def Let_def comp_def)

text \<open>
  C8, amended. In a table that is not empty, let \<open>c\<close> be a text column and take its rows
  that \<open>drop_duplicates\<close> keeps. The fill replaces every null (\<open>None\<close> or \<open>NaN\<close>) by the
  sentinel \<open>"Non renseign\'e"\<close> and leaves every other value as it is. In a column no
  later rule names, the cleaned column is exactly that. In \<open>code\<close> the filled values are
  then turned to text, and in \<open>packaging_tags\<close>, \<open>labels_tags\<close>, \<open>countries_tags\<close> a list
  is joined and any other value turned to text; both leave a string, the sentinel
  included, as it is.
\<close>

theorem clean_dataframe_fills_text:
  assumes wf: "well_formed df" and ne: "\<not> df_empty df"
    and out: "clean_dataframe lib df = Inr out"
    and c: "c \<in> set (columns df)" and ty: "dtype c = Object"
    and code: "get_column df ''code'' = Some code"
  shows "(\<not> named_by_later_rule (name c) \<longrightarrow>
            get_column out (name c)
              = Some (c\<lparr>cells := map fill_cell (select_rows (first_seen [] (cells code)) (cells c))\<rparr>))
       \<and> (name c = ''code'' \<longrightarrow>
            get_column out (name c)
              = Some (c\<lparr>cells := map (\<lambda>x. Str (str_cell lib (fill_cell x)))
                                  (select_rows (first_seen [] (cells code)) (cells c))\<rparr>))
       \<and> (name c = ''packaging_tags'' \<or> name c = ''labels_tags'' \<or> name c = ''countries_tags'' \<longrightarrow>
            get_column out (name c)
              = Some (c\<lparr>cells := map (\<lambda>x. join_or_str lib (fill_cell x))
                                  (select_rows (first_seen [] (cells code)) (cells c))\<rparr>))
       \<and> fill_cell PyNone = Str sentinel \<and> fill_cell NaN = Str sentinel
       \<and> (\<forall>x. \<not> is_null x \<longrightarrow> fill_cell x = x)
       \<and> (\<forall>s. Str (str_cell lib (Str s)) = Str s \<and> join_or_str lib (Str s) = Str s)
       \<and> sentinel = ''Non renseign'' @ [char_of (195::nat), char_of (169::nat)]"
proof -
  let ?kept = "select_rows (first_seen [] (cells code)) (cells c)"
  let ?filled = "c\<lparr>cells := map fill_cell ?kept\<rparr>"
  note names = well_formed_names [OF wf]
  have f: "fill_rule (keep_rows (first_seen [] (cells code)) c) = ?filled"
    using ty by (simp add: fill_rule_def fill_text_column_cells keep_rows_def)
  have 1: "get_column out (name c) = Some (later_rules lib ?filled)"
    using clean_dataframe_column [OF names ne out code, of "name c"] get_column_member [OF names c]
    by (simp add: column_rules_def f)
  have 2: "get_column out (name c) = Some ?filled" if "\<not> named_by_later_rule (name c)"
    using 1 that later_rules_other [of ?filled lib] by simp
  have 3: "get_column out (name c)
      = Some (c\<lparr>cells := map (\<lambda>x. Str (str_cell lib (fill_cell x))) ?kept\<rparr>)"
    if "name c = ''code''"
    using 1 that later_rules_code [of ?filled lib] ty
    by (simp add: astype_str_def comp_def)
  have 4: "get_column out (name c)
      = Some (c\<lparr>cells := map (\<lambda>x. join_or_str lib (fill_cell x)) ?kept\<rparr>)"
    if "name c = ''packaging_tags'' \<or> name c = ''labels_tags'' \<or> name c = ''countries_tags''"
    using 1 that later_rules_tags [of ?filled lib] ty
    by (simp add: flatten_column_def comp_def)
  have 5: "fill_cell PyNone = Str sentinel" "fill_cell NaN = Str sentinel"
    by (simp_all add: fill_cell_def)
  have 6: "\<forall>x. \<not> is_null x \<longrightarrow> fill_cell x = x"
    by (simp add: fill_cell_def)
  have 7: "\<forall>s. Str (str_cell lib (Str s)) = Str s \<and> join_or_str lib (Str s) = Str s"
    by simp
  from 2 3 4 5 6 7 sentinel_def show ?thesis by blast
qed

text \<open>
  The scenario of C8, on the table of \<open>test_clean_dataframe_fill_missing_text\<close>: the null
  of the column \<open>name\<close> is replaced by the sentinel and the other value is unchanged.
\<close>

theorem clean_dataframe_fills_text_witness:
  "clean_dataframe example_lib names_table = Inr names_table_clean
   \<and> get_column names_table ''name''
       = Some \<lparr>name = ''name'', dtype = Object, cells = [Str ''Test'', PyNone]\<rparr>
   \<and> get_column names_table_clean ''name''
       = Some \<lparr>name = ''name'', dtype = Object, cells = [Str ''Test'', Str sentinel]\<rparr>"
proof -
  let ?name = "\<lparr>name = ''name'', dtype = Object, cells = [Str ''Test'', PyNone]\<rparr>"
  let ?code = "\<lparr>name = ''code'', dtype = Object, cells = [Str ''123'', Str ''456'']\<rparr>"
  have ne: "\<not> df_empty names_table" by (simp add: names_table_def df_empty_def)
  have c: "?name \<in> set (columns names_table)" and ty: "dtype ?name = Object"
    and code: "get_column names_table ''code'' = Some ?code"
    and nm: "get_column names_table ''name'' = Some ?name"
    by (simp_all add: names_table_def get_column_def)
  have other: "\<not> named_by_later_rule (name ?name)"
    by (simp add: named_by_later_rule_def text_cols_to_normalize_def numeric_cols_to_clean_def list_cols_def)
  from clean_dataframe_fills_text [OF names_table_well_formed ne names_table_run [of example_lib] c ty code] other
  have "get_column names_table_clean (name ?name)
      = Some (?name\<lparr>cells := map fill_cell (select_rows (first_seen [] (cells ?code)) (cells ?name))\<rparr>)"
    by blast
  then have "get_column names_table_clean ''name''
       = Some \<lparr>name = ''name'', dtype = Object, cells = [Str ''Test'', Str sentinel]\<rparr>"
    by (simp add: fill_cell_def)
  with names_table_run nm show ?thesis by simp
qed

text \<open>
  C8 as stated fails: the null of the text column \<open>energy_100g\<close> is a null (\<open>NaN\<close>) after
  cleaning, not the sentinel; and where the sentinel is written (column \<open>name\<close>) it is
  not the string \<open>"not provided"\<close>.
\<close>

theorem clean_dataframe_sentinel_counterexample:
  "clean_dataframe example_lib text_nulls_table = Inr text_nulls_clean
   \<and> get_column text_nulls_table ''energy_100g''
       = Some \<lparr>name = ''energy_100g'', dtype = Object, cells = [PyNone, Str ''5'']\<rparr>
   \<and> get_column text_nulls_clean ''energy_100g''
       = Some \<lparr>name = ''energy_100g'', dtype = Numeric, cells = [NaN, Num 5]\<rparr>
   \<and> get_column text_nulls_table ''name''
       = Some \<lparr>name = ''name'', dtype = Object, cells = [Str ''Test'', PyNone]\<rparr>
   \<and> get_column text_nulls_clean ''name''
       = Some \<lparr>name = ''name'', dtype = Object, cells = [Str ''Test'', Str sentinel]\<rparr>
   \<and> sentinel \<noteq> ''not provided''"
  by (simp add: text_nulls_run)
    (simp add: text_nulls_table_def text_nulls_clean_def get_column_def sentinel_def)

text \<open>
  C3 as stated fails: cleaning this table makes the text \<open>abc\<close> of \<open>energy_100g\<close> a
  null in a column that is now numeric, and cleaning the result fills that null with the
  median 5. The second cleaning changes the table.
\<close>

theorem clean_dataframe_not_idempotent:
  "clean_dataframe example_lib energy_text_table = Inr energy_text_once
   \<and> clean_dataframe example_lib energy_text_once = Inr energy_text_twice
   \<and> energy_text_twice \<noteq> energy_text_once"
  by (simp add: energy_text_run_once energy_text_run_twice)
    (simp add: energy_text_once_def energy_text_twice_def)

subsection \<open>Tables that are already clean\<close>

lemma table_eqI: "index a = index b \<Longrightarrow> columns a = columns b \<Longrightarrow> a = (b::table)"
  by simp

lemma column_eqI: "name a = name b \<Longrightarrow> dtype a = dtype b \<Longrightarrow> cells a = cells b \<Longrightarrow> a = (b::column)"
  by simp

lemma already_cleanD:
  assumes "already_clean lib df" "\<not> df_empty df"
  obtains code where "well_formed df" "get_column df ''code'' = Some code" "distinct (cells code)"
    "\<And>c. c \<in> set (columns df) \<Longrightarrow> column_clean lib c"
  using assms by (auto simp: already_clean_def list_all_iff split: option.splits)

lemma well_formed_length:
  "well_formed df \<Longrightarrow> c \<in> set (columns df) \<Longrightarrow> length (cells c) = length (index df)"
  by (simp add: well_formed_def list_all_iff)

lemma is_str_not_list: "list_all is_str xs \<Longrightarrow> \<not> list_ex is_list xs"
proof -
  have "is_str x \<Longrightarrow> \<not> is_list x" for x by (cases x) simp_all
  then show "list_all is_str xs \<Longrightarrow> \<not> list_ex is_list xs"
    by (auto simp: list_all_iff list_ex_iff)
qed

lemma is_category_not_list: "list_all (is_category cats) xs \<Longrightarrow> \<not> list_ex is_list xs"
proof -
  have "is_category cats x \<Longrightarrow> \<not> is_list x" for x by (cases x) simp_all
  then show "list_all (is_category cats) xs \<Longrightarrow> \<not> list_ex is_list xs"
    by (auto simp: list_all_iff list_ex_iff)
qed

lemma clean_drop_duplicates:
  assumes "already_clean lib df" "\<not> df_empty df"
  shows "drop_duplicates df = Inr df"
proof -
  from already_cleanD [OF assms] obtain code where wf: "well_formed df"
    and code: "get_column df ''code'' = Some code" and d: "distinct (cells code)"
    and cl: "\<And>c. c \<in> set (columns df) \<Longrightarrow> column_clean lib c" by blast
  from get_column_Some [OF code] have mem: "code \<in> set (columns df)" and nm: "name code = ''code''"
    by simp_all
  from cl [OF mem] nm have "list_all is_str (cells code)" by (simp add: column_clean_def)
  then have nl: "\<not> list_ex is_list (cells code)" by (rule is_str_not_list)
  let ?keep = "first_seen [] (cells code)"
  have keep: "?keep = replicate (length (index df)) True"
    using first_seen_fresh [OF d, of "[]"] well_formed_length [OF wf mem] by simp
  have i: "select_rows ?keep (index df) = index df"
    unfolding keep by (rule select_rows_all) simp
  have "(\<lambda>c. c\<lparr>cells := select_rows ?keep (cells c)\<rparr>) c = c" if "c \<in> set (columns df)" for c
    unfolding keep using select_rows_all [of "cells c" "length (index df)"]
      well_formed_length [OF wf that] by simp
  then have "map (\<lambda>c. c\<lparr>cells := select_rows ?keep (cells c)\<rparr>) (columns df) = columns df"
    by (intro map_idI)
  with i code nl show ?thesis
    by (simp add: drop_duplicates_def Let_def)
qed

lemma clean_fill_text_column:
  assumes "column_clean lib c" "dtype c = Object"
  shows "fill_text_column c = c"
proof -
  from assms have "\<not> list_ex is_null (cells c)" by (simp add: column_clean_def)
  then have "missing_count c = 0" by (simp add: missing_count_0)
  then show ?thesis by (simp add: fill_text_column_def)
qed

lemma clean_fill_numeric_column:
  assumes "column_clean lib c" "dtype c = Numeric"
  shows "fill_numeric_column c = c"
proof -
  from assms have "\<not> list_ex is_null (cells c)" by (simp add: column_clean_def)
  then have "missing_count c = 0" by (simp add: missing_count_0)
  then show ?thesis by (simp add: fill_numeric_column_def)
qed

lemma clean_normalize_rule:
  assumes "column_clean lib c"
  shows "normalize_rule lib c = c"
proof (cases "name c \<in> set text_cols_to_normalize")
  case False
  then show ?thesis by (simp add: normalize_rule_def)
next
  case True
  with assms have ty: "dtype c = Object" and n: "list_all (is_normalized lib) (cells c)"
    by (simp_all add: column_clean_def)
  have "map (\<lambda>x. Str (str_lower lib (str_strip lib (str_cell lib x)))) (cells c) = cells c"
  proof (rule map_idI)
    fix x assume "x \<in> set (cells c)"
    with n have "is_normalized lib x" by (simp add: list_all_iff)
    then show "Str (str_lower lib (str_strip lib (str_cell lib x))) = x" by (cases x) simp_all
  qed
  with True ty show ?thesis
    by (simp add: normalize_rule_def normalize_column_cells)
qed

lemma clean_astype_str:
  assumes "dtype c = Object" "list_all is_str (cells c)"
  shows "astype_str lib c = c"
  using assms by (simp add: astype_str_def astype_str_cells_is_str)

lemma clean_code_rule:
  assumes "column_clean lib c"
  shows "code_rule lib c = c"
  using assms by (simp add: code_rule_def column_clean_def clean_astype_str)

lemma clean_nutriscore_rule:
  assumes "column_clean lib c"
  shows "nutriscore_rule c = c"
proof (cases "name c = ''nutriscore_grade''")
  case False
  then show ?thesis by (simp add: nutriscore_rule_def)
next
  case True
  with assms have ty: "dtype c = Category nutriscore_categories"
    and n: "list_all (is_category nutriscore_categories) (cells c)"
    by (simp_all add: column_clean_def)
  have "map (categorise nutriscore_categories) (cells c) = cells c"
  proof (rule map_idI)
    fix x assume "x \<in> set (cells c)"
    with n have "is_category nutriscore_categories x" by (simp add: list_all_iff)
    then show "categorise nutriscore_categories x = x" by (cases x) simp_all
  qed
  with True ty show ?thesis by (simp add: nutriscore_rule_def Categorical_def)
qed

lemma clean_clip_outliers:
  assumes "within_bounds c"
  shows "clip_outliers c = c"
proof (cases "std (numbers (cells c))")
  case None
  then show ?thesis by (simp add: clip_outliers_def Let_def)
next
  case (Some std_val)
  show ?thesis
  proof (cases "std_val > 0")
    case False
    with Some show ?thesis by (simp add: clip_outliers_def Let_def)
  next
    case True
    with assms Some have
      "list_all (\<lambda>x. \<not> below (mean (numbers (cells c)) - 3 * std_val) x
                   \<and> \<not> above (mean (numbers (cells c)) + 3 * std_val) x) (cells c)"
      by (simp add: within_bounds_def)
    then have "filter (\<lambda>x. below (mean (numbers (cells c)) - 3 * std_val) x
                   \<or> above (mean (numbers (cells c)) + 3 * std_val) x) (cells c) = []"
      by (auto simp: list_all_iff filter_empty_conv)
    with Some True show ?thesis by (simp add: clip_outliers_def Let_def)
  qed
qed

lemma clean_numeric_rule:
  assumes "column_clean lib c"
  shows "numeric_rule lib c = c"
proof (cases "name c \<in> set numeric_cols_to_clean")
  case False
  then show ?thesis by (simp add: numeric_rule_def)
next
  case True
  with assms have ty: "dtype c = Numeric" and nn: "\<not> list_ex is_negative (cells c)"
    and wb: "within_bounds c" by (simp_all add: column_clean_def)
  from nn have "filter is_negative (cells c) = []"
    by (auto simp: list_ex_iff filter_empty_conv)
  with ty have "clean_numeric_column lib c = clip_outliers c"
    by (simp add: clean_numeric_column_def to_numeric_def Let_def)
  with True wb show ?thesis by (simp add: numeric_rule_def clean_clip_outliers)
qed

lemma clean_list_rule:
  assumes "column_clean lib c"
  shows "list_rule lib c = c"
proof (cases "name c \<in> set list_cols")
  case False
  then show ?thesis by (simp add: list_rule_def)
next
  case True
  with assms have ty: "dtype c = Object" and n: "list_all is_str (cells c)"
    by (simp_all add: column_clean_def)
  have "map (join_or_str lib) (cells c) = cells c"
  proof (rule map_idI)
    fix x assume "x \<in> set (cells c)"
    with n have "is_str x" by (simp add: list_all_iff)
    then show "join_or_str lib x = x" by (cases x) simp_all
  qed
  with True ty show ?thesis by (simp add: list_rule_def flatten_column_def)
qed

lemma clean_nutriscore_to_category:
  assumes cl: "\<And>c. c \<in> set (columns df) \<Longrightarrow> column_clean lib c"
  shows "nutriscore_to_category df = Inr df"
proof (cases "get_column df ''nutriscore_grade''")
  case None
  then show ?thesis by (simp add: nutriscore_to_category_def)
next
  case (Some c)
  from get_column_Some [OF Some] have mem: "c \<in> set (columns df)" and nm: "name c = ''nutriscore_grade''"
    by simp_all
  from cl [OF mem] nm have "list_all (is_category nutriscore_categories) (cells c)"
    by (simp add: column_clean_def)
  then have nl: "\<not> list_ex is_list (cells c)" by (rule is_category_not_list)
  have "assign_column ''nutriscore_grade'' (Categorical nutriscore_categories) df
      = map_columns nutriscore_rule df"
    by (simp add: assign_column_map nutriscore_rule_def [abs_def])
  also have "\<dots> = df"
    by (rule map_columns_fix) (rule clean_nutriscore_rule [OF cl])
  finally show ?thesis using Some nl by (simp add: nutriscore_to_category_def)
qed

text \<open>
  C3, amended. A table that is already clean (every rule's result holds of it: distinct
  codes, no null in a text or numeric column, the named columns normalised, that is,
  unchanged by \<open>str.strip\<close> followed by \<open>str.lower\<close>, typed, non-negative, within three
  standard deviations and flattened) is returned by
  \<open>clean_dataframe\<close> as it is, and each rule alone leaves it unchanged. So
  \<open>clean(clean(T)) = clean(T)\<close> holds whenever \<open>clean(T)\<close> is already clean, which the
  result of a first cleaning need not be.
\<close>

theorem already_clean_fixpoint:
  assumes "already_clean lib df"
  shows "clean_dataframe lib df = Inr df
    \<and> (\<not> df_empty df \<longrightarrow>
          drop_duplicates df = Inr df \<and> fill_text df = df \<and> fill_numeric df = df
        \<and> normalize_text lib df = df \<and> code_to_str lib df = df
        \<and> nutriscore_to_category df = Inr df
        \<and> clean_numeric lib df = df \<and> flatten_lists lib df = df)"
proof (cases "df_empty df")
  case True
  then show ?thesis by (simp add: clean_dataframe_def)
next
  case False
  from already_cleanD [OF assms False] obtain code where wf: "well_formed df"
    and cl: "\<And>c. c \<in> set (columns df) \<Longrightarrow> column_clean lib c" by blast
  note names = well_formed_names [OF wf]
  have r1: "drop_duplicates df = Inr df" by (rule clean_drop_duplicates [OF assms False])
  have r2: "fill_text df = df"
    unfolding fill_text_map [OF names]
    by (rule map_columns_fix) (simp add: clean_fill_text_column [OF cl])
  have r3: "fill_numeric df = df"
    unfolding fill_numeric_map [OF names]
    by (rule map_columns_fix) (simp add: clean_fill_numeric_column [OF cl])
  have r4: "normalize_text lib df = df"
    unfolding normalize_text_map by (rule map_columns_fix) (rule clean_normalize_rule [OF cl])
  have r5: "code_to_str lib df = df"
    unfolding code_to_str_map by (rule map_columns_fix) (rule clean_code_rule [OF cl])
  have r6: "nutriscore_to_category df = Inr df"
    by (rule clean_nutriscore_to_category [OF cl])
  have r7: "clean_numeric lib df = df"
    unfolding clean_numeric_map by (rule map_columns_fix) (rule clean_numeric_rule [OF cl])
  have r8: "flatten_lists lib df = df"
    unfolding flatten_lists_map by (rule map_columns_fix) (rule clean_list_rule [OF cl])
  have "clean_rules lib df = Inr df"
    by (simp add: clean_rules_def r2 r3 r4 r5 r6 r7 r8)
  with False r1 have "clean_dataframe lib df = Inr df"
    by (simp add: clean_dataframe_def)
  with r1 r2 r3 r4 r5 r6 r7 r8 show ?thesis by blast
qed

lemma tidy_table_already_clean: "already_clean example_lib tidy_table"
  by (simp add: already_clean_def tidy_table_def well_formed_def df_empty_def get_column_def
      column_clean_def text_cols_to_normalize_def numeric_cols_to_clean_def list_cols_def
      nutriscore_categories_def within_bounds_def std_def mean_def example_lib_def
      ascii_lower_def ascii_strip_def lower_char_def is_space_def)

theorem already_clean_fixpoint_witness:
  "already_clean example_lib tidy_table \<and> \<not> df_empty tidy_table
   \<and> clean_dataframe example_lib tidy_table = Inr tidy_table
   \<and> fill_text tidy_table = tidy_table"
proof -
  have ne: "\<not> df_empty tidy_table" by (simp add: tidy_table_def df_empty_def)
  from already_clean_fixpoint [OF tidy_table_already_clean] ne tidy_table_already_clean
  show ?thesis by blast
qed

subsection \<open>The argument is left as it was\<close>

lemma heap_frame:
  assumes "length h \<le> a"
  shows "take (length h) ((h @ hs)[a := t]) = h"
  using assms by (simp add: take_update_cancel)

text \<open>
  C9. Whatever \<open>clean_dataframe\<close> does, every DataFrame that existed before the call
  is afterwards what it was, the argument among them: the rules write to objects
  allocated during the call only. What is returned or raised is what \<open>clean_dataframe\<close>
  on tables returns or raises.
\<close>

theorem clean_dataframe_heap_frame:
  assumes "df < length h"
  shows "take (length h) (snd (clean_dataframe_heap lib h df)) = h
       \<and> snd (clean_dataframe_heap lib h df) ! df = h ! df
       \<and> (case fst (clean_dataframe_heap lib h df) of
            Inr a \<Rightarrow> a < length (snd (clean_dataframe_heap lib h df))
                     \<and> clean_dataframe lib (h ! df) = Inr (snd (clean_dataframe_heap lib h df) ! a)
          | Inl e \<Rightarrow> clean_dataframe lib (h ! df) = Inl e)"
proof (cases "df_empty (h ! df)")
  case True
  with assms show ?thesis by (simp add: clean_dataframe_heap_def clean_dataframe_def)
next
  case False
  show ?thesis
  proof (cases "drop_duplicates (h ! df)")
    case (Inl e)
    with False assms show ?thesis
      by (simp add: clean_dataframe_heap_def clean_dataframe_def Let_def nth_append)
  next
    case (Inr d1)
    let ?d5 = "code_to_str lib (normalize_text lib (fill_numeric (fill_text d1)))"
    show ?thesis
    proof (cases "nutriscore_to_category ?d5")
      case (Inl e)
      with Inr False assms show ?thesis
        by (simp add: clean_dataframe_heap_def clean_dataframe_def clean_rules_def Let_def
            nth_append take_update_cancel)
    next
      case d6: (Inr d6)
      with Inr False assms show ?thesis
        by (simp add: clean_dataframe_heap_def clean_dataframe_def clean_rules_def Let_def
            nth_append take_update_cancel)
    qed
  qed
qed

theorem clean_dataframe_heap_frame_witness:
  "(0::nat) < length [names_table]
   \<and> take 1 (snd (clean_dataframe_heap example_lib [names_table] 0)) = [names_table]
   \<and> snd (clean_dataframe_heap example_lib [names_table] 0) ! 0 = names_table
   \<and> (\<exists>a. fst (clean_dataframe_heap example_lib [names_table] 0) = Inr a
        \<and> snd (clean_dataframe_heap example_lib [names_table] 0) ! a = names_table_clean)"
proof -
  have l: "(0::nat) < length [names_table]" by simp
  from clean_dataframe_heap_frame [OF l, of example_lib] show ?thesis
    by (cases "fst (clean_dataframe_heap example_lib [names_table] 0)")
       (simp_all add: names_table_run)
qed



end
